theory Spec2Isabelle
  imports Main "HOL-Library.Multiset"
begin

section \<open>JavaScript values\<close>

text \<open>
  The fetcher in \<^verbatim>\<open>src/fetchers/repo.js\<close> works on the parsed body of a GraphQL response,
  so its data are JavaScript values.  An object is its list of own properties in
  property order; \<open>Undefined\<close> is what reading an absent property yields.  A number is
  an integer (the counters of the GraphQL schema are 32-bit \<open>Int\<close>s); addition rounds as
  double addition does, and \<open>NaN\<close> and the two infinities (\<open>Infinity True\<close> is the
  positive one) are there so that it is total.  A character stands for one code unit
  below 256.
\<close>

datatype js =
    Undefined
  | Null
  | Bool bool
  | Num int
  | NaN
  | Infinity bool
  | Str string
  | Arr "js list"
  | Obj "(string \<times> js) list"

text \<open>
  What a \<^verbatim>\<open>throw\<close> (or a rejected promise) carries.  \<open>Error m\<close> is \<^verbatim>\<open>new Error(m)\<close>;
  \<open>TypeError\<close> and \<open>SyntaxError\<close> are raised by the language itself;
  \<open>MissingParamError\<close> is the class imported from \<^verbatim>\<open>../common/utils.js\<close>, recorded
  with the two arguments of its constructor.
\<close>

datatype error =
    Error string
  | TypeError
  | SyntaxError
  | MissingParamError "string list" string

definition bindE :: "error + 'a \<Rightarrow> ('a \<Rightarrow> error + 'b) \<Rightarrow> error + 'b" where
  "bindE m f = (case m of Inl e \<Rightarrow> Inl e | Inr x \<Rightarrow> f x)"

text \<open>Truthiness, as tested by \<^verbatim>\<open>!x\<close>, \<^verbatim>\<open>x && y\<close>, \<^verbatim>\<open>x || y\<close> and \<^verbatim>\<open>if (x)\<close>.\<close>

fun truthy :: "js \<Rightarrow> bool" where
  "truthy Undefined = False"
| "truthy Null = False"
| "truthy (Bool b) = b"
| "truthy (Num n) = (n \<noteq> 0)"
| "truthy NaN = False"
| "truthy (Infinity p) = True"
| "truthy (Str s) = (s \<noteq> [])"
| "truthy (Arr xs) = True"
| "truthy (Obj fs) = True"

text \<open>
  Property read \<^verbatim>\<open>v.k\<close>.  Reading from \<^verbatim>\<open>undefined\<close> or \<^verbatim>\<open>null\<close> throws a TypeError;
  an object yields its own property or \<^verbatim>\<open>undefined\<close>; arrays and strings have a
  \<^verbatim>\<open>length\<close>.  The names the source reads are neither indices nor members of a
  built-in prototype, so nothing else is found on a primitive or an array.
\<close>

fun get :: "js \<Rightarrow> string \<Rightarrow> error + js" where
  "get Undefined k = Inl TypeError"
| "get Null k = Inl TypeError"
| "get (Obj fs) k = Inr (case map_of fs k of None \<Rightarrow> Undefined | Some v \<Rightarrow> v)"
| "get (Arr xs) k = Inr (if k = ''length'' then Num (int (length xs)) else Undefined)"
| "get (Str s) k = Inr (if k = ''length'' then Num (int (length s)) else Undefined)"
| "get (Bool b) k = Inr Undefined"
| "get (Num n) k = Inr Undefined"
| "get NaN k = Inr Undefined"
| "get (Infinity p) k = Inr Undefined"

subsection \<open>Strings and numbers\<close>

text \<open>\<^verbatim>\<open>String.prototype.toLowerCase\<close> on code units below 256.\<close>

definition lower_char :: "char \<Rightarrow> char" where
  "lower_char c =
     (let n = (of_char c :: nat) in
      if (65 \<le> n \<and> n \<le> 90) \<or> (192 \<le> n \<and> n \<le> 222 \<and> n \<noteq> 215)
      then char_of (n + 32) else c)"

definition toLowerCase :: "string \<Rightarrow> string" where
  "toLowerCase s = map lower_char s"

text \<open>
  The call \<^verbatim>\<open>v.toLowerCase()\<close>: only a string has the method; on anything else the
  call throws a TypeError.
\<close>

fun call_toLowerCase :: "js \<Rightarrow> error + string" where
  "call_toLowerCase (Str s) = Inr (toLowerCase s)"
| "call_toLowerCase v = Inl TypeError"

text \<open>Decimal digits of a natural number, and the text of an integer.\<close>

fun digits :: "nat \<Rightarrow> string" where
  "digits n =
     (if n < 10 then [char_of (48 + n)]
      else digits (n div 10) @ [char_of (48 + n mod 10)])"

declare digits.simps [simp del]

definition show_int :: "int \<Rightarrow> string" where
  "show_int i = (if i < 0 then CHR ''-'' # digits (nat (- i)) else digits (nat i))"

fun commas :: "string list \<Rightarrow> string" where
  "commas [] = []"
| "commas [x] = x"
| "commas (x # y # ys) = x @ CHR '','' # commas (y # ys)"

text \<open>
  The double nearest to an integer.  Up to \<open>2 ^ 53\<close> in magnitude every integer is a
  double; a larger one keeps the 53 leading binary digits, rounded to the nearest, and
  to the even one of two that are equally near.
\<close>

fun bit_length :: "nat \<Rightarrow> nat" where
  "bit_length n = (if n = 0 then 0 else Suc (bit_length (n div 2)))"

declare bit_length.simps [simp del]

definition round_double :: "int \<Rightarrow> int" where
  "round_double i =
     (if \<bar>i\<bar> \<le> 2 ^ 53 then i
      else
        let a = nat \<bar>i\<bar>;
            ulp = 2 ^ (bit_length a - 53);
            q = a div ulp;
            r = a mod ulp;
            q' = (if ulp < 2 * r \<or> (2 * r = ulp \<and> odd q) then q + 1 else q)
        in sgn i * int (q' * ulp))"

text \<open>
  The text of a number.  Up to \<open>2 ^ 53\<close> in magnitude it is the decimal digits.  A
  larger double is written with the fewest significant digits that read back as the
  same double, the nearest such number when there are several (\<open>shortest\<close> tries
  \<open>k\<close> significant digits before \<open>k + 1\<close>, rounding down and rounding up); below
  \<open>10 ^ 21\<close> the remaining places are zeros, from there on the digits are followed by
  an exponent.
\<close>

fun shortest :: "nat \<Rightarrow> nat \<Rightarrow> nat" where
  "shortest a 0 = a"
| "shortest a (Suc e) =
     (let p = 10 ^ Suc e;
          v0 = (a div p) * p;
          v1 = v0 + p;
          r0 = (round_double (int v0) = int a);
          r1 = (round_double (int v1) = int a)
      in if r0 \<and> r1
         then (if a - v0 < v1 - a \<or> (a - v0 = v1 - a \<and> even (a div p)) then v0 else v1)
         else if r0 then v0
         else if r1 then v1
         else shortest a e)"

definition number_to_string :: "int \<Rightarrow> string" where
  "number_to_string i =
     (let a = nat \<bar>i\<bar>;
          v = (if a \<le> 2 ^ 53 then a else shortest a (length (digits a) - 1));
          ds = digits v;
          sign = (if i < 0 then ''-'' else [])
      in if v < 10 ^ 21 then sign @ ds
         else
           let s = rev (dropWhile (\<lambda>c. c = CHR ''0'') (rev ds))
           in sign @ hd s # (if tl s = [] then [] else CHR ''.'' # tl s)
                @ ''e+'' @ digits (length ds - 1))"

text \<open>
  The text of a value (ToString).  An array joins the texts of its elements, with the
  empty text for \<^verbatim>\<open>undefined\<close> and \<^verbatim>\<open>null\<close>.  An object of a JSON document has
  no methods of its own: it is \<^verbatim>\<open>[object Object]\<close> through the inherited
  \<^verbatim>\<open>toString\<close>, unless an own property of that name hides the method, and then the
  conversion throws a TypeError.
\<close>

fun to_string :: "js \<Rightarrow> error + string"
and to_string_elems :: "js list \<Rightarrow> error + string list"
where
  "to_string Undefined = Inr ''undefined''"
| "to_string Null = Inr ''null''"
| "to_string (Bool b) = Inr (if b then ''true'' else ''false'')"
| "to_string (Num n) = Inr (number_to_string n)"
| "to_string NaN = Inr ''NaN''"
| "to_string (Infinity p) = Inr (if p then ''Infinity'' else ''-Infinity'')"
| "to_string (Str s) = Inr s"
| "to_string (Arr xs) = bindE (to_string_elems xs) (\<lambda>texts. Inr (commas texts))"
| "to_string (Obj fs) =
     (if ''toString'' \<in> set (map fst fs) then Inl TypeError else Inr ''[object Object]'')"
| "to_string_elems [] = Inr []"
| "to_string_elems (x # xs) =
     bindE (if x = Undefined \<or> x = Null then Inr [] else to_string x) (\<lambda>t.
     bindE (to_string_elems xs) (\<lambda>ts. Inr (t # ts)))"

text \<open>ToPrimitive: an array or an object becomes its text, a primitive is itself.\<close>

fun to_primitive :: "js \<Rightarrow> error + js" where
  "to_primitive (Arr xs) = bindE (to_string (Arr xs)) (\<lambda>t. Inr (Str t))"
| "to_primitive (Obj fs) = bindE (to_string (Obj fs)) (\<lambda>t. Inr (Str t))"
| "to_primitive v = Inr v"

fun is_Str :: "js \<Rightarrow> bool" where
  "is_Str (Str s) = True"
| "is_Str v = False"

text \<open>
  ToNumber of a primitive that is not a string (the sum of two operands of which one
  is a string is their concatenation, so that no string is ever made a number).
\<close>

fun to_number :: "js \<Rightarrow> js" where
  "to_number Null = Num 0"
| "to_number (Bool b) = Num (if b then 1 else 0)"
| "to_number (Num n) = Num n"
| "to_number (Infinity p) = Infinity p"
| "to_number v = NaN"

text \<open>The Number that an exact integer result becomes: from \<open>2 ^ 1024\<close> on it is infinite.\<close>

definition number :: "int \<Rightarrow> js" where
  "number i =
     (let d = round_double i in
      if 2 ^ 1024 \<le> \<bar>d\<bar> then Infinity (0 < d) else Num d)"

fun num_plus :: "js \<Rightarrow> js \<Rightarrow> js" where
  "num_plus (Num x) (Num y) = number (x + y)"
| "num_plus (Infinity p) (Infinity q) = (if p = q then Infinity p else NaN)"
| "num_plus (Infinity p) (Num y) = Infinity p"
| "num_plus (Num x) (Infinity q) = Infinity q"
| "num_plus a b = NaN"

text \<open>
  The operator \<^verbatim>\<open>+\<close> (of \<^verbatim>\<open>+=\<close>): both operands are made primitive, the left one
  first; if either is then a string the result is the concatenation of their texts,
  otherwise the sum of their numbers.
\<close>

definition js_plus :: "js \<Rightarrow> js \<Rightarrow> error + js" where
  "js_plus a b =
     bindE (to_primitive a) (\<lambda>pa.
     bindE (to_primitive b) (\<lambda>pb.
     if is_Str pa \<or> is_Str pb
     then bindE (to_string pa) (\<lambda>ta. bindE (to_string pb) (\<lambda>tb. Inr (Str (ta @ tb))))
     else Inr (num_plus (to_number pa) (to_number pb))))"

text \<open>The expression \<^verbatim>\<open>x || 0\<close>.\<close>

definition or_zero :: "js \<Rightarrow> js" where
  "or_zero x = (if truthy x then x else Num 0)"

subsection \<open>Object literals with spread\<close>

text \<open>
  Defining property \<open>k\<close> on an object: an existing property keeps its place and takes
  the new value, a new one goes last.  (JavaScript keeps integer-like keys first, in
  ascending order.  The keys the source adds are not integer-like, and a text written
  by \<^verbatim>\<open>JSON.stringify\<close> lists the keys in property order already, so that a new key
  does go last wherever the source defines one.)
\<close>

fun obj_set :: "(string \<times> js) list \<Rightarrow> string \<Rightarrow> js \<Rightarrow> (string \<times> js) list" where
  "obj_set [] k v = [(k, v)]"
| "obj_set ((k', v') # fs) k v =
     (if k' = k then (k, v) # fs else (k', v') # obj_set fs k v)"

definition define_all :: "(string \<times> js) list \<Rightarrow> (string \<times> js) list \<Rightarrow> (string \<times> js) list" where
  "define_all base props = foldl (\<lambda>fs kv. obj_set fs (fst kv) (snd kv)) base props"

text \<open>
  The own enumerable properties that \<^verbatim>\<open>...v\<close> copies into an object literal: those of
  an object, the indexed elements of an array, the indexed characters of a string,
  nothing for any other value.
\<close>

fun spread :: "js \<Rightarrow> (string \<times> js) list" where
  "spread (Obj fs) = fs"
| "spread (Arr xs) = map (\<lambda>ix. (digits (fst ix), snd ix)) (enumerate 0 xs)"
| "spread (Str s) = map (\<lambda>ic. (digits (fst ic), Str [snd ic])) (enumerate 0 s)"
| "spread v = []"

section \<open>JSON text\<close>

subsection \<open>\<^verbatim>\<open>JSON.stringify\<close>\<close>

definition hexdigit :: "nat \<Rightarrow> char" where
  "hexdigit d = (if d < 10 then char_of (48 + d) else char_of (87 + d))"

definition escape_char :: "char \<Rightarrow> string" where
  "escape_char c =
     (if c = CHR 0x22 then [CHR 0x5C, CHR 0x22]
      else if c = CHR 0x5C then [CHR 0x5C, CHR 0x5C]
      else if c = CHR 0x08 then [CHR 0x5C, CHR ''b'']
      else if c = CHR 0x09 then [CHR 0x5C, CHR ''t'']
      else if c = CHR 0x0A then [CHR 0x5C, CHR ''n'']
      else if c = CHR 0x0C then [CHR 0x5C, CHR ''f'']
      else if c = CHR 0x0D then [CHR 0x5C, CHR ''r'']
      else if (of_char c :: nat) < 32
        then [CHR 0x5C, CHR ''u'', CHR ''0'', CHR ''0'',
              hexdigit (of_char c div 16), hexdigit (of_char c mod 16)]
      else [c])"

definition quote :: "string \<Rightarrow> string" where
  "quote s = CHR 0x22 # concat (map escape_char s) @ [CHR 0x22]"

text \<open>
  The text of a value.  NaN and the infinities are written \<^verbatim>\<open>null\<close>, and so is
  \<^verbatim>\<open>undefined\<close> inside an array; a property whose value is \<^verbatim>\<open>undefined\<close> is left
  out.  A number is written with all its digits.  (Beyond \<open>2 ^ 53\<close> JavaScript writes
  the fewest digits that read back as the same number, see \<open>number_to_string\<close>.  Both
  texts read back as the number, and equal numbers have equal texts; the source uses
  the text for nothing else, it is the key of a record in the set and is parsed again.)
\<close>

fun ser :: "js \<Rightarrow> string"
and ser_elems :: "js list \<Rightarrow> string list"
and ser_members :: "(string \<times> js) list \<Rightarrow> string list"
where
  "ser Undefined = ''null''"
| "ser Null = ''null''"
| "ser NaN = ''null''"
| "ser (Infinity p) = ''null''"
| "ser (Bool b) = (if b then ''true'' else ''false'')"
| "ser (Num n) = show_int n"
| "ser (Str s) = quote s"
| "ser (Arr xs) = CHR ''['' # commas (ser_elems xs) @ '']''"
| "ser (Obj fs) = CHR ''{'' # commas (ser_members fs) @ ''}''"
| "ser_elems [] = []"
| "ser_elems (x # xs) = ser x # ser_elems xs"
| "ser_members [] = []"
| "ser_members ((k, v) # fs) =
     (if v = Undefined then ser_members fs
      else (quote k @ CHR '':'' # ser v) # ser_members fs)"

text \<open>\<^verbatim>\<open>JSON.stringify(v)\<close> is a string, or \<^verbatim>\<open>undefined\<close> (here \<open>None\<close>) for \<^verbatim>\<open>undefined\<close>.\<close>

definition JSON_stringify :: "js \<Rightarrow> string option" where
  "JSON_stringify v = (if v = Undefined then None else Some (ser v))"

subsection \<open>\<^verbatim>\<open>JSON.parse\<close>\<close>

text \<open>
  The source applies \<^verbatim>\<open>JSON.parse\<close> only to what \<^verbatim>\<open>JSON.stringify\<close> returned.  The
  parser below reads the JSON grammar without insignificant white space and without
  fractions or exponents (neither is ever written for the values above); any other
  text is a SyntaxError.  Parsing \<^verbatim>\<open>undefined\<close> is a SyntaxError as well.
\<close>

definition is_digit :: "char \<Rightarrow> bool" where
  "is_digit c = (48 \<le> (of_char c :: nat) \<and> (of_char c :: nat) \<le> 57)"

definition digits_value :: "string \<Rightarrow> nat" where
  "digits_value ds = foldl (\<lambda>a c. 10 * a + (of_char c - 48)) 0 ds"

definition parse_nat :: "string \<Rightarrow> (nat \<times> string) option" where
  "parse_nat s =
     (let ds = takeWhile is_digit s; r = dropWhile is_digit s in
      if ds = [] then None
      else if hd ds = CHR ''0'' \<and> length ds > 1 then None
      else if r \<noteq> [] \<and> hd r \<in> {CHR ''.'', CHR ''e'', CHR ''E''} then None
      else Some (digits_value ds, r))"

definition unhex :: "char \<Rightarrow> nat option" where
  "unhex c =
     (let n = (of_char c :: nat) in
      if 48 \<le> n \<and> n \<le> 57 then Some (n - 48)
      else if 97 \<le> n \<and> n \<le> 102 then Some (n - 87)
      else if 65 \<le> n \<and> n \<le> 70 then Some (n - 55)
      else None)"

definition unhex4 :: "char \<Rightarrow> char \<Rightarrow> char \<Rightarrow> char \<Rightarrow> char option" where
  "unhex4 a b c d =
     (case (unhex a, unhex b, unhex c, unhex d) of
        (Some x, Some y, Some z, Some w) \<Rightarrow>
          (let n = ((x * 16 + y) * 16 + z) * 16 + w in
           if n < 256 then Some (char_of n) else None)
      | _ \<Rightarrow> None)"

definition unescape :: "char \<Rightarrow> char option" where
  "unescape e =
     (if e = CHR 0x22 then Some (CHR 0x22)
      else if e = CHR 0x5C then Some (CHR 0x5C)
      else if e = CHR ''/'' then Some (CHR ''/'')
      else if e = CHR ''b'' then Some (CHR 0x08)
      else if e = CHR ''t'' then Some (CHR 0x09)
      else if e = CHR ''n'' then Some (CHR 0x0A)
      else if e = CHR ''f'' then Some (CHR 0x0C)
      else if e = CHR ''r'' then Some (CHR 0x0D)
      else None)"

definition cons_fst :: "'a \<Rightarrow> ('a list \<times> 'b) option \<Rightarrow> ('a list \<times> 'b) option" where
  "cons_fst x r = (case r of None \<Rightarrow> None | Some (xs, rest) \<Rightarrow> Some (x # xs, rest))"

text \<open>The characters of a string literal, read after its opening quote.\<close>

fun parse_chars :: "string \<Rightarrow> (string \<times> string) option" where
  "parse_chars [] = None"
| "parse_chars (c # r) =
     (if c = CHR 0x22 then Some ([], r)
      else if c = CHR 0x5C then
        (case r of
           [] \<Rightarrow> None
         | e # r1 \<Rightarrow>
             if e = CHR ''u'' then
               (case r1 of
                  h1 # h2 # h3 # h4 # r2 \<Rightarrow>
                    (case unhex4 h1 h2 h3 h4 of
                       None \<Rightarrow> None
                     | Some ch \<Rightarrow> cons_fst ch (parse_chars r2))
                | _ \<Rightarrow> None)
             else
               (case unescape e of
                  None \<Rightarrow> None
                | Some ch \<Rightarrow> cons_fst ch (parse_chars r1)))
      else if (of_char c :: nat) < 32 then None
      else cons_fst c (parse_chars r))"

definition parse_literal :: "string \<Rightarrow> (js \<times> string) option" where
  "parse_literal s =
     (if take 4 s = ''null'' then Some (Null, drop 4 s)
      else if take 4 s = ''true'' then Some (Bool True, drop 4 s)
      else if take 5 s = ''false'' then Some (Bool False, drop 5 s)
      else (case s of
              [] \<Rightarrow> None
            | c # r \<Rightarrow>
                if c = CHR ''-'' then
                  (case parse_nat r of
                     None \<Rightarrow> None
                   | Some (n, r') \<Rightarrow> Some (Num (- int n), r'))
                else
                  (case parse_nat s of
                     None \<Rightarrow> None
                   | Some (n, r') \<Rightarrow> Some (Num (int n), r'))))"

text \<open>
  Values, the elements of a non-empty array and the members of a non-empty object.
  The members of an object are defined one after the other, so of two members with
  one key the later value stays.  The length tests only say that the text still to be
  read has become shorter.
\<close>

function parse_value :: "string \<Rightarrow> (js \<times> string) option"
and parse_elems :: "string \<Rightarrow> (js list \<times> string) option"
and parse_members :: "string \<Rightarrow> ((string \<times> js) list \<times> string) option"
where
  "parse_value s =
     (case s of
        [] \<Rightarrow> None
      | c # r \<Rightarrow>
          if c = CHR ''['' then
            (case r of
               [] \<Rightarrow> None
             | c1 # r1 \<Rightarrow>
                 if c1 = CHR '']'' then Some (Arr [], r1)
                 else (case parse_elems r of
                         None \<Rightarrow> None
                       | Some (xs, r2) \<Rightarrow> Some (Arr xs, r2)))
          else if c = CHR ''{'' then
            (case r of
               [] \<Rightarrow> None
             | c1 # r1 \<Rightarrow>
                 if c1 = CHR ''}'' then Some (Obj [], r1)
                 else (case parse_members r of
                         None \<Rightarrow> None
                       | Some (fs, r2) \<Rightarrow> Some (Obj (define_all [] fs), r2)))
          else if c = CHR 0x22 then
            (case parse_chars r of
               None \<Rightarrow> None
             | Some (str, r1) \<Rightarrow> Some (Str str, r1))
          else parse_literal s)"
| "parse_elems s =
     (case parse_value s of
        None \<Rightarrow> None
      | Some (v, r) \<Rightarrow>
          (case r of
             [] \<Rightarrow> None
           | c # r1 \<Rightarrow>
               if c = CHR '']'' then Some ([v], r1)
               else if c = CHR '','' \<and> length r1 < length s then cons_fst v (parse_elems r1)
               else None))"
| "parse_members s =
     (case s of
        [] \<Rightarrow> None
      | c # r \<Rightarrow>
          if c = CHR 0x22 then
            (case parse_chars r of
               None \<Rightarrow> None
             | Some (k, r1) \<Rightarrow>
                 (case r1 of
                    [] \<Rightarrow> None
                  | c1 # r2 \<Rightarrow>
                      if c1 = CHR '':'' \<and> length r2 < length s then
                        (case parse_value r2 of
                           None \<Rightarrow> None
                         | Some (v, r3) \<Rightarrow>
                             (case r3 of
                                [] \<Rightarrow> None
                              | c3 # r4 \<Rightarrow>
                                  if c3 = CHR ''}'' then Some ([(k, v)], r4)
                                  else if c3 = CHR '','' \<and> length r4 < length s
                                    then cons_fst (k, v) (parse_members r4)
                                  else None))
                      else None))
          else None)"
  by pat_completeness auto
termination
  by (relation "measure (\<lambda>x. case x of
        Inl s \<Rightarrow> 2 * length s
      | Inr (Inl s) \<Rightarrow> 2 * length s + 1
      | Inr (Inr s) \<Rightarrow> 2 * length s + 1)") auto

declare parse_value.simps [simp del] parse_elems.simps [simp del] parse_members.simps [simp del]

definition JSON_parse :: "string option \<Rightarrow> error + js" where
  "JSON_parse t =
     (case t of
        None \<Rightarrow> Inl SyntaxError
      | Some s \<Rightarrow>
          (case parse_value s of
             Some (v, []) \<Rightarrow> Inr v
           | _ \<Rightarrow> Inl SyntaxError))"

text \<open>What follows a value inside a text: nothing, a comma or a closing bracket.\<close>

definition sep :: "string \<Rightarrow> bool" where
  "sep r = (r = [] \<or> hd r \<in> {CHR '','', CHR '']'', CHR ''}''})"

section \<open>The Commit Reconciler\<close>

text \<open>\<^verbatim>\<open>Array.prototype.flat()\<close>: the elements of the arrays among the elements, one level.\<close>

fun flat :: "js list \<Rightarrow> js list" where
  "flat [] = []"
| "flat (x # xs) = (case x of Arr ys \<Rightarrow> ys | _ \<Rightarrow> [x]) @ flat xs"

text \<open>\<^verbatim>\<open>Array.prototype.map\<close> with a callback that may throw: the first throw ends it.\<close>

fun mapE :: "('a \<Rightarrow> error + 'b) \<Rightarrow> 'a list \<Rightarrow> error + 'b list" where
  "mapE f [] = Inr []"
| "mapE f (x # xs) = bindE (f x) (\<lambda>y. bindE (mapE f xs) (\<lambda>ys. Inr (y # ys)))"

text \<open>
  \<^verbatim>\<open>new Set(xs)\<close> adds the elements in order and keeps the first of equal ones; a Set is
  iterated (\<^verbatim>\<open>[...set]\<close>) in insertion order.
\<close>

definition Set_add :: "'a list \<Rightarrow> 'a \<Rightarrow> 'a list" where
  "Set_add s x = (if x \<in> set s then s else s @ [x])"

definition Set_new :: "'a list \<Rightarrow> 'a list" where
  "Set_new xs = foldl Set_add [] xs"

text \<open>The callback \<^verbatim>\<open>node => node.target.history.nodes\<close>.\<close>

definition history_nodes :: "js \<Rightarrow> error + js" where
  "history_nodes node =
     bindE (get node ''target'') (\<lambda>target.
     bindE (get target ''history'') (\<lambda>history.
     get history ''nodes''))"

text \<open>
  \<^verbatim>\<open>filterDuplicateCommits\<close>.  Calling \<^verbatim>\<open>.map\<close> on anything but an array throws a
  TypeError.
\<close>

definition filterDuplicateCommits :: "js \<Rightarrow> error + js list" where
  "filterDuplicateCommits branchesCommits =
     (case branchesCommits of
        Arr branches \<Rightarrow>
          bindE (mapE history_nodes branches) (\<lambda>histories.
          mapE JSON_parse (Set_new (map JSON_stringify (flat histories))))
      | _ \<Rightarrow> Inl TypeError)"

text \<open>
  The \<^verbatim>\<open>for\<close> loop of \<^verbatim>\<open>totalAdditionsAndDeletionsByUser\<close> over the unique commits, with
  the two running counts.
\<close>

fun tally :: "js list \<Rightarrow> string \<Rightarrow> js \<Rightarrow> js \<Rightarrow> error + (js \<times> js)" where
  "tally [] username additionsCount deletionsCount = Inr (additionsCount, deletionsCount)"
| "tally (commit # rest) username additionsCount deletionsCount =
     bindE (get commit ''author'') (\<lambda>author.
     bindE (get author ''user'') (\<lambda>user.
     bindE (if truthy user
            then bindE (get user ''login'') (\<lambda>login.
                 bindE (call_toLowerCase login) (\<lambda>l.
                 Inr (l = toLowerCase username)))
            else Inr False) (\<lambda>byUser.
     if byUser then
       bindE (get commit ''additions'') (\<lambda>additions.
       bindE (js_plus additionsCount (or_zero additions)) (\<lambda>additionsCount'.
       bindE (get commit ''deletions'') (\<lambda>deletions.
       bindE (js_plus deletionsCount (or_zero deletions)) (\<lambda>deletionsCount'.
       tally rest username additionsCount' deletionsCount'))))
     else tally rest username additionsCount deletionsCount)))"

definition counts :: "js \<times> js \<Rightarrow> js" where
  "counts ad = Obj [(''additionsCount'', fst ad), (''deletionsCount'', snd ad)]"

definition aggregate :: "js list \<Rightarrow> string \<Rightarrow> error + js" where
  "aggregate uniqueCommits username =
     bindE (tally uniqueCommits username (Num 0) (Num 0)) (\<lambda>ad. Inr (counts ad))"

definition totalAdditionsAndDeletionsByUser :: "js \<Rightarrow> string \<Rightarrow> error + js" where
  "totalAdditionsAndDeletionsByUser branchesCommits username =
     bindE (filterDuplicateCommits branchesCommits) (\<lambda>uniqueCommits.
     aggregate uniqueCommits username)"

section \<open>The network\<close>

text \<open>
  \<^verbatim>\<open>retryer(fetcher, payload)\<close> is the only way out to the network.  A payload is one of
  the three queries of the source with its variables; the remote service together with
  the retry policy is a function from the payload to the response that the promise
  resolves to, or the error it rejects with.  Every call is logged, so that the order
  and the absence of calls can be stated.
\<close>

datatype request =
    IdQuery string
  | CommitsQuery string string js
  | MetaQuery string string

type_synonym network = "request \<Rightarrow> error + js"

type_synonym 'a io = "request list \<Rightarrow> (error + 'a) \<times> request list"

definition retryer :: "network \<Rightarrow> request \<Rightarrow> js io" where
  "retryer net payload log = (net payload, log @ [payload])"

definition bindIO :: "'a io \<Rightarrow> ('a \<Rightarrow> 'b io) \<Rightarrow> 'b io" where
  "bindIO m f log = (case m log of (Inl e, log') \<Rightarrow> (Inl e, log') | (Inr x, log') \<Rightarrow> f x log')"

definition liftE :: "error + 'a \<Rightarrow> 'a io" where
  "liftE r log = (r, log)"

definition throw :: "error \<Rightarrow> 'a io" where
  "throw e log = (Inl e, log)"

text \<open>The body \<^verbatim>\<open>res.data.data\<close> of a response.\<close>

definition payload_data :: "js \<Rightarrow> error + js" where
  "payload_data res = bindE (get res ''data'') (\<lambda>body. get body ''data'')"

section \<open>The fetchers\<close>

definition fetchRepoCommits :: "network \<Rightarrow> string \<Rightarrow> string \<Rightarrow> js io" where
  "fetchRepoCommits net username reponame =
     bindIO (retryer net (IdQuery username)) (\<lambda>res_id.
     bindIO (liftE (payload_data res_id)) (\<lambda>data_id.
     bindIO (liftE (get data_id ''user'')) (\<lambda>user.
     if \<not> truthy user then throw (Error ''Not found'')
     else
     bindIO (liftE (get user ''id'')) (\<lambda>id.
     bindIO (retryer net (CommitsQuery username reponame id)) (\<lambda>res.
     bindIO (liftE (payload_data res)) (\<lambda>data.
     bindIO (liftE (get data ''repository'')) (\<lambda>repository.
     if \<not> truthy repository then throw (Error ''Repository or refs not found'')
     else
     bindIO (liftE (get repository ''refs'')) (\<lambda>refs.
     if \<not> truthy refs then throw (Error ''Repository or refs not found'')
     else
     bindIO (liftE (get refs ''nodes'')) (\<lambda>nodes.
     bindIO (liftE (get nodes ''length'')) (\<lambda>len.
     if len = Num 0 then throw (Error ''No commits found'')
     else liftE (totalAdditionsAndDeletionsByUser nodes username)))))))))))"

text \<open>
  The two branches of \<^verbatim>\<open>fetchRepoMeta\<close> that return a repository differ only in the
  owner they read and in the message they throw.
\<close>

definition repository_of :: "js \<Rightarrow> string \<Rightarrow> error + js" where
  "repository_of owner message =
     bindE (get owner ''repository'') (\<lambda>repository.
     if \<not> truthy repository then Inl (Error message)
     else
     bindE (get repository ''isPrivate'') (\<lambda>isPrivate.
     if truthy isPrivate then Inl (Error message)
     else
     bindE (get repository ''stargazers'') (\<lambda>stargazers.
     bindE (get stargazers ''totalCount'') (\<lambda>totalCount.
     Inr (Obj (obj_set (define_all [] (spread repository)) ''starCount'' totalCount))))))"

definition fetchRepoMeta :: "network \<Rightarrow> string \<Rightarrow> string \<Rightarrow> js io" where
  "fetchRepoMeta net username reponame =
     bindIO (retryer net (MetaQuery username reponame)) (\<lambda>res.
     bindIO (liftE (payload_data res)) (\<lambda>data.
     bindIO (liftE (get data ''user'')) (\<lambda>user.
     bindIO (liftE (get data ''organization'')) (\<lambda>organization.
     if \<not> truthy user \<and> \<not> truthy organization then throw (Error ''Not found'')
     else
       let isUser = (if organization = Null then user else Bool False);
           isOrg = (if user = Null then organization else Bool False)
       in
       if truthy isUser then liftE (repository_of user ''User Repository Not found'')
       else if truthy isOrg
         then liftE (repository_of organization ''Organization Repository Not found'')
       else throw (Error ''Unexpected behavior'')))))"

definition urlExample :: string where
  "urlExample = ''/api/pin?username=USERNAME&amp;repo=REPO_NAME''"

definition fetchRepo :: "network \<Rightarrow> string \<Rightarrow> string \<Rightarrow> js io" where
  "fetchRepo net username reponame =
     (if username = [] \<and> reponame = []
        then throw (MissingParamError [''username'', ''repo''] urlExample)
      else if username = [] then throw (MissingParamError [''username''] urlExample)
      else if reponame = [] then throw (MissingParamError [''repo''] urlExample)
      else
        bindIO (fetchRepoMeta net username reponame) (\<lambda>repoMeta.
        bindIO (fetchRepoCommits net username reponame) (\<lambda>repoCommits.
        liftE (Inr (Obj (define_all (define_all [] (spread repoMeta)) (spread repoCommits)))))))"

section \<open>The data model\<close>

text \<open>
  A JSON document, as the transport delivers it: no \<^verbatim>\<open>undefined\<close>, no NaN and no
  infinity anywhere, and no object with two properties of one name.
\<close>

fun is_json :: "js \<Rightarrow> bool" where
  "is_json Undefined = False"
| "is_json NaN = False"
| "is_json (Infinity p) = False"
| "is_json (Arr xs) = (\<forall>x \<in> set xs. is_json x)"
| "is_json (Obj fs) = (distinct (map fst fs) \<and> (\<forall>kv \<in> set fs. is_json (snd kv)))"
| "is_json v = True"

text \<open>The property \<open>k\<close> of \<open>v\<close> where it can be read, \<^verbatim>\<open>undefined\<close> elsewhere.\<close>

definition field :: "js \<Rightarrow> string \<Rightarrow> js" where
  "field v k = (case get v k of Inl e \<Rightarrow> Undefined | Inr x \<Rightarrow> x)"

fun is_object :: "js \<Rightarrow> bool" where
  "is_object (Obj fs) = True"
| "is_object v = False"

fun absent :: "js \<Rightarrow> bool" where
  "absent Undefined = True"
| "absent Null = True"
| "absent v = False"

subsection \<open>Commit records and branch histories\<close>

text \<open>
  A CommitRecord has an author whose user is null (or missing) or carries a login, and
  additions and deletions that are integers where they are present.
\<close>

fun is_count :: "js \<Rightarrow> bool" where
  "is_count (Num n) = True"
| "is_count v = absent v"

definition is_user :: "js \<Rightarrow> bool" where
  "is_user u = (absent u \<or> (is_object u \<and> is_Str (field u ''login'')))"

definition is_commit :: "js \<Rightarrow> bool" where
  "is_commit c =
     (is_json c \<and> is_object c \<and> is_object (field c ''author'')
      \<and> is_user (field (field c ''author'') ''user'')
      \<and> is_count (field c ''additions'') \<and> is_count (field c ''deletions''))"

text \<open>The commit records of one branch ref, and of all of them in order.\<close>

definition branch_commits :: "js \<Rightarrow> js list" where
  "branch_commits b = (case history_nodes b of Inr (Arr cs) \<Rightarrow> cs | _ \<Rightarrow> [])"

definition all_commits :: "js list \<Rightarrow> js list" where
  "all_commits bs = concat (map branch_commits bs)"

text \<open>
  A BranchHistory: \<^verbatim>\<open>target.history.nodes\<close> is a sequence of JSON values, respectively
  of commit records.
\<close>

definition is_history :: "js \<Rightarrow> bool" where
  "is_history b =
     (case history_nodes b of Inr (Arr cs) \<Rightarrow> list_all is_json cs | _ \<Rightarrow> False)"

definition is_branch :: "js \<Rightarrow> bool" where
  "is_branch b =
     (case history_nodes b of Inr (Arr cs) \<Rightarrow> list_all is_commit cs | _ \<Rightarrow> False)"

text \<open>
  What the aggregate is meant to be: a record counts for a login when its author's
  user has that login up to letter case, and it counts with its field, or with zero
  where the field is missing.
\<close>

definition authored_by :: "string \<Rightarrow> js \<Rightarrow> bool" where
  "authored_by username c =
     (case field (field (field c ''author'') ''user'') ''login'' of
        Str login \<Rightarrow> toLowerCase login = toLowerCase username
      | _ \<Rightarrow> False)"

definition count_of :: "string \<Rightarrow> js \<Rightarrow> int" where
  "count_of k c = (case field c k of Num n \<Rightarrow> n | _ \<Rightarrow> 0)"

definition total :: "string \<Rightarrow> string \<Rightarrow> js list \<Rightarrow> int" where
  "total k username cs = sum_list (map (count_of k) (filter (authored_by username) cs))"

text \<open>
  The limits of one response.  A counter that is a number is an \<open>Int\<close> of the schema,
  of 32 bits, and there are at most \<open>2 ^ 22\<close> commit records (the query asks for at most
  100 refs with at most 100 commits each).  Within these limits no sum of counters
  goes beyond \<open>2 ^ 53\<close>, so that every addition of the loop is exact.
\<close>

fun int32 :: "js \<Rightarrow> bool" where
  "int32 (Num n) = (- (2 ^ 31) \<le> n \<and> n < 2 ^ 31)"
| "int32 v = True"

definition within_limits :: "js list \<Rightarrow> bool" where
  "within_limits cs =
     (length cs \<le> 2 ^ 22
      \<and> list_all (\<lambda>c. int32 (field c ''additions'') \<and> int32 (field c ''deletions'')) cs)"

text \<open>The values of type Number.\<close>

fun is_number :: "js \<Rightarrow> bool" where
  "is_number (Num n) = True"
| "is_number NaN = True"
| "is_number (Infinity p) = True"
| "is_number v = False"

subsection \<open>Owner lookups\<close>

text \<open>
  A repository record carries its star counter; an owner namespace is null or an
  object whose repository is null (or missing) or a repository record.
\<close>

definition is_repository :: "js \<Rightarrow> bool" where
  "is_repository r = (is_json r \<and> is_object r \<and> \<not> absent (field r ''stargazers''))"

definition is_owner :: "js \<Rightarrow> bool" where
  "is_owner owner =
     (owner = Null
      \<or> (is_object owner
          \<and> (absent (field owner ''repository'') \<or> is_repository (field owner ''repository''))))"

text \<open>The repository of an owner is usable when it is there and not private.\<close>

definition usable :: "js \<Rightarrow> bool" where
  "usable owner =
     (truthy (field owner ''repository'')
      \<and> \<not> truthy (field (field owner ''repository'') ''isPrivate''))"

subsection \<open>The responses of one invocation\<close>

text \<open>
  The bodies the network returns for the three queries of one call of \<^verbatim>\<open>fetchRepo\<close>;
  the commit query carries the id that the identity query returned.
\<close>

definition response_data :: "error + js \<Rightarrow> js" where
  "response_data r = (case r of Inl e \<Rightarrow> Undefined | Inr res \<Rightarrow> field (field res ''data'') ''data'')"

definition meta_data :: "network \<Rightarrow> string \<Rightarrow> string \<Rightarrow> js" where
  "meta_data net username reponame = response_data (net (MetaQuery username reponame))"

definition id_data :: "network \<Rightarrow> string \<Rightarrow> js" where
  "id_data net username = response_data (net (IdQuery username))"

definition commits_data :: "network \<Rightarrow> string \<Rightarrow> string \<Rightarrow> js" where
  "commits_data net username reponame =
     response_data
       (net (CommitsQuery username reponame (field (field (id_data net username) ''user'') ''id'')))"

text \<open>
  An OwnerLookupResult has both namespaces, each null or an owner.  The body of the
  identity query has a user that is null or an object; the body of the commit query
  has a repository that is null (or missing) or an object, whose refs are null (or
  missing) or an object with an array of nodes.
\<close>

definition is_owner_lookup :: "js \<Rightarrow> bool" where
  "is_owner_lookup data = (is_owner (field data ''user'') \<and> is_owner (field data ''organization''))"

definition is_identity :: "js \<Rightarrow> bool" where
  "is_identity data_id = (field data_id ''user'' = Null \<or> is_object (field data_id ''user''))"

fun is_array :: "js \<Rightarrow> bool" where
  "is_array (Arr xs) = True"
| "is_array v = False"

definition is_refs_lookup :: "js \<Rightarrow> bool" where
  "is_refs_lookup data =
     (let repository = field data ''repository''; refs = field repository ''refs'' in
      is_object data
      \<and> (absent repository
          \<or> (is_object repository
              \<and> (absent refs \<or> (is_object refs \<and> is_array (field refs ''nodes''))))))"

subsection \<open>The error taxonomy\<close>

text \<open>
  The kinds of failure that the design enumerates, and the kind it assigns to the
  responses of an invocation: a missing parameter first; then the owner lookup
  (neither namespace, both namespaces, or one namespace whose repository is missing
  or private); then the identity lookup and the branch refs.  \<open>None\<close> is no failure
  of the taxonomy, or responses that are not of the shapes above.
\<close>

datatype kind = MissingParameter | NotFound string | Unexpected

definition owner_kind :: "js \<Rightarrow> kind option" where
  "owner_kind data =
     (let user = field data ''user''; organization = field data ''organization'' in
      if user = Null \<and> organization = Null then Some (NotFound ''owner'')
      else if user \<noteq> Null \<and> organization \<noteq> Null then Some Unexpected
      else if organization = Null
        then (if usable user then None else Some (NotFound ''user-repository''))
      else (if usable organization then None else Some (NotFound ''organization-repository'')))"

definition refs_kind :: "js \<Rightarrow> kind option" where
  "refs_kind data =
     (let repository = field data ''repository''; refs = field repository ''refs'' in
      if absent repository \<or> absent refs then Some (NotFound ''repository-or-refs'')
      else if field refs ''nodes'' = Arr [] then Some (NotFound ''no-commits'')
      else None)"

definition failure_kind :: "network \<Rightarrow> string \<Rightarrow> string \<Rightarrow> kind option" where
  "failure_kind net username reponame =
     (if username = [] \<or> reponame = [] then Some MissingParameter
      else if \<not> is_owner_lookup (meta_data net username reponame) then None
      else
        (case owner_kind (meta_data net username reponame) of
           Some k \<Rightarrow> Some k
         | None \<Rightarrow>
             if \<not> is_identity (id_data net username) then None
             else if field (id_data net username) ''user'' = Null then Some (NotFound ''identity'')
             else if \<not> is_refs_lookup (commits_data net username reponame) then None
             else refs_kind (commits_data net username reponame)))"

text \<open>
  The error that the source throws where the design names a kind: the constructor call
  of \<^verbatim>\<open>MissingParamError\<close> in \<^verbatim>\<open>fetchRepo\<close>, and the messages of the \<^verbatim>\<open>throw\<close>
  statements of \<^verbatim>\<open>fetchRepoMeta\<close> and \<^verbatim>\<open>fetchRepoCommits\<close>.
\<close>

fun raises :: "kind \<Rightarrow> error \<Rightarrow> bool" where
  "raises MissingParameter e =
     (case e of MissingParamError ps url \<Rightarrow> url = urlExample | _ \<Rightarrow> False)"
| "raises Unexpected e = (e = Error ''Unexpected behavior'')"
| "raises (NotFound what) e =
     (if what = ''owner'' then e = Error ''Not found''
      else if what = ''user-repository'' then e = Error ''User Repository Not found''
      else if what = ''organization-repository'' then e = Error ''Organization Repository Not found''
      else if what = ''identity'' then e = Error ''Not found''
      else if what = ''repository-or-refs'' then e = Error ''Repository or refs not found''
      else if what = ''no-commits'' then e = Error ''No commits found''
      else False)"

section \<open>Example data\<close>

definition commit :: "string \<Rightarrow> string \<Rightarrow> int \<Rightarrow> int \<Rightarrow> js" where
  "commit oid login a d =
     Obj [(''oid'', Str oid),
          (''author'', Obj [(''user'', Obj [(''id'', Str ''1''), (''login'', Str login)])]),
          (''additions'', Num a),
          (''deletions'', Num d)]"

definition branch :: "string \<Rightarrow> js list \<Rightarrow> js" where
  "branch name cs =
     Obj [(''name'', Str name), (''target'', Obj [(''history'', Obj [(''nodes'', Arr cs)])])]"

definition response :: "js \<Rightarrow> js" where
  "response d = Obj [(''data'', Obj [(''data'', d)])]"

definition example_repository :: js where
  "example_repository =
     Obj [(''name'', Str ''tlsscanner''),
          (''stargazers'', Obj [(''totalCount'', Num 0)]),
          (''description'', Str ''''),
          (''primaryLanguage'', Obj [(''color'', Str ''#''), (''id'', Str ''''), (''name'', Str '''')]),
          (''forkCount'', Num 0)]"

text \<open>
  A commit whose author is linked to no user, and a commit record without the
  \<^verbatim>\<open>additions\<close> property.
\<close>

definition anonymous_commit :: js where
  "anonymous_commit =
     Obj [(''oid'', Str ''777777''),
          (''author'', Obj [(''user'', Null)]),
          (''additions'', Num 7),
          (''deletions'', Num 7)]"

definition partial_commit :: js where
  "partial_commit =
     Obj [(''oid'', Str ''444444''),
          (''author'', Obj [(''user'', Obj [(''id'', Str ''1''), (''login'', Str ''TESTUSER'')])]),
          (''deletions'', Num 4)]"

text \<open>
  Two branches that share one commit record and have one of their own each; the second
  also lists a record with the hash of the shared one and other additions, and a commit
  of somebody else.  A third branch has the two commits above.
\<close>

definition shared_branches :: "js list" where
  "shared_branches =
     [branch ''main'' [commit ''abc123'' ''TestUser'' 10 5, commit ''def456'' ''testuser'' 15 3],
      branch ''dev'' [commit ''abc123'' ''TestUser'' 10 5, commit ''abc123'' ''TestUser'' 11 5,
                      commit ''0a1b2c'' ''testuser'' 1 2, commit ''ffffff'' ''other'' 100 100],
      branch ''fix'' [anonymous_commit, partial_commit]]"

text \<open>
  The end-to-end example: two branches with one commit of the user each.
\<close>

definition example_branches :: "js list" where
  "example_branches =
     [branch ''main'' [commit ''abc123'' ''testuser'' 10 5],
      branch ''dev'' [commit ''def456'' ''testuser'' 15 3]]"

text \<open>
  A remote service that answers the metadata query, the identity query and the commit
  query with three given bodies.
\<close>

definition service :: "js \<Rightarrow> js \<Rightarrow> js \<Rightarrow> network" where
  "service meta identity commits q =
     (case q of
        MetaQuery l r \<Rightarrow> Inr (response meta)
      | IdQuery l \<Rightarrow> Inr (response identity)
      | CommitsQuery l r i \<Rightarrow> Inr (response commits))"

definition owners :: "js \<Rightarrow> js \<Rightarrow> js" where
  "owners user organization = Obj [(''user'', user), (''organization'', organization)]"

definition owner_of :: "js \<Rightarrow> js" where
  "owner_of repository = Obj [(''repository'', repository)]"

definition private_repository :: js where
  "private_repository =
     Obj [(''name'', Str ''tlsscanner''),
          (''isPrivate'', Bool True),
          (''stargazers'', Obj [(''totalCount'', Num 0)])]"

definition known_user :: js where
  "known_user = Obj [(''user'', Obj [(''id'', Str ''U_1'')])]"

definition no_user :: js where
  "no_user = Obj [(''user'', Null)]"

definition refs_of :: "js list \<Rightarrow> js" where
  "refs_of bs = Obj [(''repository'', Obj [(''refs'', Obj [(''nodes'', Arr bs)])])]"

text \<open>The end-to-end example: the repository of a user.\<close>

definition example_net :: network where
  "example_net =
     service (owners (owner_of example_repository) Null) known_user (refs_of example_branches)"

text \<open>A login that is neither a user nor an organization.\<close>

definition unknown_net :: network where
  "unknown_net = service (owners Null Null) no_user (Obj [(''repository'', Null)])"

text \<open>
  A repository of an organization: the owner lookup finds it, and the identity lookup
  finds no user of that login.
\<close>

definition organization_net :: network where
  "organization_net =
     service (owners Null (owner_of example_repository)) no_user (refs_of example_branches)"

text \<open>The record that the end-to-end example returns.\<close>

definition example_record :: js where
  "example_record =
     Obj [(''name'', Str ''tlsscanner''),
          (''stargazers'', Obj [(''totalCount'', Num 0)]),
          (''description'', Str ''''),
          (''primaryLanguage'', Obj [(''color'', Str ''#''), (''id'', Str ''''), (''name'', Str '''')]),
          (''forkCount'', Num 0),
          (''starCount'', Num 0),
          (''additionsCount'', Num 25),
          (''deletionsCount'', Num 8)]"

text \<open>
  The mock of the repository's test \<^verbatim>\<open>should fetch correct user repo\<close>: one body,
  the reply to every request, in which the repository lists the two commits of the
  end-to-end example under \<^verbatim>\<open>defaultBranchRef\<close>.
\<close>

definition mock_repository :: js where
  "mock_repository =
     Obj [(''name'', Str ''tlsscanner''),
          (''stargazers'', Obj [(''totalCount'', Num 0)]),
          (''description'', Str ''''),
          (''primaryLanguage'', Obj [(''color'', Str ''#''), (''id'', Str ''''), (''name'', Str '''')]),
          (''forkCount'', Num 0),
          (''defaultBranchRef'',
             Obj [(''target'',
               Obj [(''history'',
                 Obj [(''totalCount'', Num 2),
                      (''nodes'', Arr [commit ''abc123'' ''testuser'' 10 5,
                                       commit ''def456'' ''testuser'' 15 3])])])])]"

definition mock_net :: network where
  "mock_net q = Inr (response (owners (owner_of mock_repository) Null))"

section \<open>Reading back what was written\<close>

subsection \<open>Numbers\<close>

lemma digits_nonempty: "digits n \<noteq> []"
  by (subst digits.simps) simp

lemma of_char_digit: "d < 10 \<Longrightarrow> (of_char (char_of (48 + d :: nat)) :: nat) = 48 + d"
  by simp

lemma digits_all: "c \<in> set (digits n) \<Longrightarrow> is_digit c"
proof (induction n arbitrary: c rule: digits.induct)
  case (1 n)
  show ?case
  proof (cases "n < 10")
    case True
    with "1.prems" show ?thesis
      by (subst (asm) digits.simps) (simp add: is_digit_def)
  next
    case False
    have m: "n mod 10 < 10" by simp
    have "digits n = digits (n div 10) @ [char_of (48 + n mod 10)]"
      using False by (subst digits.simps) simp
    with "1.prems" have "c \<in> set (digits (n div 10)) \<or> c = char_of (48 + n mod 10)"
      by auto
    then show ?thesis
    proof
      assume "c \<in> set (digits (n div 10))"
      with "1.IH" False show ?thesis by simp
    next
      assume "c = char_of (48 + n mod 10)"
      with of_char_digit [OF m] show ?thesis by (simp add: is_digit_def)
    qed
  qed
qed

lemma digits_value_snoc: "digits_value (ds @ [c]) = 10 * digits_value ds + (of_char c - 48)"
  by (simp add: digits_value_def)

lemma digits_value_digits: "digits_value (digits n) = n"
proof (induction n rule: digits.induct)
  case (1 n)
  show ?case
  proof (cases "n < 10")
    case True
    then show ?thesis
      by (subst digits.simps) (simp add: digits_value_def)
  next
    case False
    have m: "n mod 10 < 10" by simp
    from False "1.IH" have "digits_value (digits (n div 10)) = n div 10" by simp
    with False of_char_digit [OF m] show ?thesis
      by (subst digits.simps) (simp add: digits_value_snoc)
  qed
qed

lemma digits_hd: "0 < n \<Longrightarrow> hd (digits n) \<noteq> CHR ''0''"
proof (induction n rule: digits.induct)
  case (1 n)
  show ?case
  proof (cases "n < 10")
    case True
    with "1.prems" have "n \<in> {1,2,3,4,5,6,7,8,9}" by auto
    then show ?thesis
      by (subst digits.simps) (auto simp: char_of_eq_iff)
  next
    case False
    then have "0 < n div 10" by simp
    with "1.IH" False have "hd (digits (n div 10)) \<noteq> CHR ''0''" by simp
    with False digits_nonempty [of "n div 10"] show ?thesis
      by (subst digits.simps) simp
  qed
qed

lemma digits_zero: "digits 0 = ''0''"
  by (subst digits.simps) (simp add: char_of_eq_iff)

lemma sep_not_digit: "sep r \<Longrightarrow> r \<noteq> [] \<Longrightarrow> \<not> is_digit (hd r)"
  by (auto simp: sep_def is_digit_def)

lemma takeWhile_digits: "sep r \<Longrightarrow> takeWhile is_digit (digits n @ r) = digits n"
  using sep_not_digit [of r] digits_all [of _ n]
  by (cases r) (auto simp: takeWhile_append2)

lemma dropWhile_digits: "sep r \<Longrightarrow> dropWhile is_digit (digits n @ r) = r"
  using sep_not_digit [of r] digits_all [of _ n]
  by (cases r) (auto simp: dropWhile_append2)

lemma parse_nat_digits: "sep r \<Longrightarrow> parse_nat (digits n @ r) = Some (n, r)"
proof -
  assume s: "sep r"
  have lead: "\<not> (hd (digits n) = CHR ''0'' \<and> length (digits n) > 1)"
  proof (cases "n = 0")
    case True then show ?thesis by (simp add: digits_zero)
  next
    case False then show ?thesis using digits_hd [of n] by simp
  qed
  have nx: "\<not> (r \<noteq> [] \<and> hd r \<in> {CHR ''.'', CHR ''e'', CHR ''E''})"
    using s by (auto simp: sep_def)
  show ?thesis
    using lead nx digits_nonempty [of n]
    by (simp add: parse_nat_def takeWhile_digits [OF s] dropWhile_digits [OF s]
        digits_value_digits Let_def)
qed

subsection \<open>Strings\<close>

lemma unhex_hexdigit: "d < 16 \<Longrightarrow> unhex (hexdigit d) = Some d"
  by (auto simp: unhex_def hexdigit_def Let_def)

lemma unhex_zero: "unhex (CHR ''0'') = Some 0"
  by (simp add: unhex_def)

lemma unhex4_control:
  "unhex4 (CHR ''0'') (CHR ''0'') (hexdigit (of_char c div 16)) (hexdigit (of_char c mod 16)) = Some c"
proof -
  have a: "(of_char c :: nat) div 16 < 16"
    using nat_of_char_less_256 [of c] by (simp add: less_mult_imp_div_less)
  have b: "(of_char c :: nat) mod 16 < 16" by simp
  show ?thesis
    by (simp add: unhex4_def unhex_zero unhex_hexdigit [OF a] unhex_hexdigit [OF b])
qed

lemma parse_chars_escape: "parse_chars (escape_char c @ t) = cons_fst c (parse_chars t)"
proof -
  consider (q) "c = CHR 0x22" | (b) "c = CHR 0x5C" | (c8) "c = CHR 0x08" | (c9) "c = CHR 0x09"
    | (ca) "c = CHR 0x0A" | (cc) "c = CHR 0x0C" | (cd) "c = CHR 0x0D"
    | (ctl) "c \<notin> {CHR 0x22, CHR 0x5C, CHR 0x08, CHR 0x09, CHR 0x0A, CHR 0x0C, CHR 0x0D}"
        "(of_char c :: nat) < 32"
    | (plain) "c \<notin> {CHR 0x22, CHR 0x5C, CHR 0x08, CHR 0x09, CHR 0x0A, CHR 0x0C, CHR 0x0D}"
        "\<not> (of_char c :: nat) < 32"
    by blast
  then show ?thesis
  proof cases
    case ctl
    then show ?thesis
      using unhex4_control [of c] by (simp add: escape_char_def)
  next
    case plain
    then show ?thesis by (simp add: escape_char_def)
  qed (simp_all add: escape_char_def unescape_def)
qed

lemma parse_chars_quote:
  "parse_chars (concat (map escape_char s) @ CHR 0x22 # r) = Some (s, r)"
  by (induction s) (simp_all add: parse_chars_escape cons_fst_def)

lemma ser_nonempty: "ser v \<noteq> []"
  by (cases v) (simp_all add: show_int_def digits_nonempty quote_def)

subsection \<open>Values\<close>

lemma sep_simps [simp]: "sep []" "sep (CHR '','' # r)" "sep (CHR '']'' # r)" "sep (CHR ''}'' # r)"
  by (simp_all add: sep_def)

lemma parse_elems_roundtrip:
  assumes "\<And>x r. x \<in> set xs \<Longrightarrow> sep r \<Longrightarrow> parse_value (ser x @ r) = Some (x, r)"
    and "xs \<noteq> []"
  shows "parse_elems (commas (ser_elems xs) @ CHR '']'' # r) = Some (xs, r)"
  using assms
proof (induction xs)
  case Nil
  then show ?case by simp
next
  case (Cons x xs)
  show ?case
  proof (cases xs)
    case Nil
    then show ?thesis
      using Cons.prems(1) [of x "CHR '']'' # r"]
      by (subst parse_elems.simps) simp
  next
    case (Cons y ys)
    have tl: "parse_elems (commas (ser_elems xs) @ CHR '']'' # r) = Some (xs, r)"
      using Cons.IH Cons.prems(1) Cons by simp
    have hd: "parse_value (ser x @ CHR '','' # commas (ser_elems xs) @ CHR '']'' # r)
        = Some (x, CHR '','' # commas (ser_elems xs) @ CHR '']'' # r)"
      using Cons.prems(1) [of x] by simp
    show ?thesis
      using hd tl Cons
      by (subst parse_elems.simps) (simp add: cons_fst_def)
  qed
qed

lemma ser_members_json:
  "\<forall>kv \<in> set fs. snd kv \<noteq> Undefined \<Longrightarrow>
   ser_members fs = map (\<lambda>kv. quote (fst kv) @ CHR '':'' # ser (snd kv)) fs"
  by (induction fs) auto

lemma parse_members_roundtrip:
  assumes "\<And>kv r. kv \<in> set fs \<Longrightarrow> sep r \<Longrightarrow> parse_value (ser (snd kv) @ r) = Some (snd kv, r)"
    and "\<forall>kv \<in> set fs. snd kv \<noteq> Undefined"
    and "fs \<noteq> []"
  shows "parse_members (commas (ser_members fs) @ CHR ''}'' # r) = Some (fs, r)"
  using assms
proof (induction fs)
  case Nil
  then show ?case by simp
next
  case (Cons kv fs)
  obtain k v where kv: "kv = (k, v)" by (cases kv)
  have v: "v \<noteq> Undefined" using Cons.prems(2) kv by simp
  have pv: "\<And>r. sep r \<Longrightarrow> parse_value (ser v @ r) = Some (v, r)"
    using Cons.prems(1) [of kv] kv by simp
  show ?case
  proof (cases fs)
    case Nil
    then show ?thesis
      using v kv pv [of "CHR ''}'' # r"]
      by (subst parse_members.simps) (simp add: quote_def parse_chars_quote)
  next
    case (Cons kv' fs')
    have tl: "parse_members (commas (ser_members fs) @ CHR ''}'' # r) = Some (fs, r)"
      using Cons.IH Cons.prems Cons by simp
    obtain m ms where ms: "ser_members fs = m # ms"
      using Cons Cons.prems(2) by (cases kv') auto
    show ?thesis
      using v kv tl ms pv [of "CHR '','' # commas (ser_members fs) @ CHR ''}'' # r"]
      by (subst parse_members.simps) (simp add: quote_def parse_chars_quote cons_fst_def)
  qed
qed

lemma obj_set_fresh: "k \<notin> fst ` set fs \<Longrightarrow> obj_set fs k v = fs @ [(k, v)]"
  by (induction fs) auto

lemma define_all_distinct:
  "distinct (map fst (base @ fs)) \<Longrightarrow> define_all base fs = base @ fs"
proof (induction fs arbitrary: base)
  case Nil
  then show ?case by (simp add: define_all_def)
next
  case (Cons kv fs)
  have "obj_set base (fst kv) (snd kv) = base @ [kv]"
    using Cons.prems by (simp add: obj_set_fresh)
  moreover have "define_all (base @ [kv]) fs = (base @ [kv]) @ fs"
    using Cons.prems by (intro Cons.IH) simp
  ultimately show ?case by (simp add: define_all_def)
qed

lemma digits_Cons: "\<exists>d ds. digits n = d # ds \<and> is_digit d"
  using digits_nonempty [of n] digits_all [of _ n] by (cases "digits n") auto

lemma is_digit_neq:
  "is_digit d \<Longrightarrow> d \<noteq> CHR ''n'' \<and> d \<noteq> CHR ''t'' \<and> d \<noteq> CHR ''f'' \<and> d \<noteq> CHR ''-''
     \<and> d \<noteq> CHR ''['' \<and> d \<noteq> CHR '']'' \<and> d \<noteq> CHR ''{'' \<and> d \<noteq> CHR ''}'' \<and> d \<noteq> CHR 0x22"
  by (auto simp: is_digit_def)

lemma parse_literal_num: "sep r \<Longrightarrow> parse_literal (show_int n @ r) = Some (Num n, r)"
proof -
  assume s: "sep r"
  show ?thesis
  proof (cases "n < 0")
    case True
    then show ?thesis
      by (simp add: show_int_def parse_literal_def parse_nat_digits [OF s])
  next
    case False
    obtain d ds where d: "digits (nat n) = d # ds" "is_digit d"
      using digits_Cons by blast
    have "parse_nat (d # ds @ r) = Some (nat n, r)"
      using parse_nat_digits [OF s, of "nat n"] d by simp
    then show ?thesis
      using False d is_digit_neq [OF d(2)]
      by (simp add: show_int_def parse_literal_def)
  qed
qed

lemma ser_Cons: "\<exists>c cs. ser v = c # cs \<and> c \<noteq> CHR '']'' \<and> c \<noteq> CHR ''}''"
proof (cases v)
  case (Num n)
  obtain d ds where d: "digits (nat n) = d # ds" "is_digit d"
    using digits_Cons by blast
  then show ?thesis
    using Num is_digit_neq [OF d(2)] by (simp add: show_int_def)
qed (simp_all add: quote_def)

lemma parse_value_roundtrip:
  "is_json v \<Longrightarrow> sep r \<Longrightarrow> parse_value (ser v @ r) = Some (v, r)"
proof (induction v arbitrary: r)
  case Undefined
  then show ?case by simp
next
  case Null
  then show ?case by (subst parse_value.simps) (simp add: parse_literal_def)
next
  case (Bool b)
  then show ?case by (subst parse_value.simps) (simp add: parse_literal_def)
next
  case (Num n)
  obtain c cs where c: "show_int n = c # cs" "c = CHR ''-'' \<or> is_digit c"
  proof (cases "n < 0")
    case True
    then show ?thesis using that by (simp add: show_int_def)
  next
    case False
    then show ?thesis using that digits_Cons [of "nat n"] by (auto simp: show_int_def)
  qed
  have "c \<noteq> CHR ''['' \<and> c \<noteq> CHR ''{'' \<and> c \<noteq> CHR 0x22"
  proof (cases "c = CHR ''-''")
    case True
    then show ?thesis by simp
  next
    case False
    then show ?thesis using c(2) is_digit_neq [of c] by simp
  qed
  then show ?case
    using c(1) parse_literal_num [OF Num.prems(2), of n]
    by (subst parse_value.simps) simp
next
  case NaN
  then show ?case by simp
next
  case (Infinity p)
  then show ?case by simp
next
  case (Str s)
  then show ?case by (subst parse_value.simps) (simp add: quote_def parse_chars_quote)
next
  case (Arr xs)
  show ?case
  proof (cases xs)
    case Nil
    then show ?thesis by (subst parse_value.simps) simp
  next
    case (Cons y ys)
    have "parse_elems (commas (ser_elems xs) @ CHR '']'' # r) = Some (xs, r)"
      using Arr Cons by (intro parse_elems_roundtrip) auto
    moreover obtain c cs where "commas (ser_elems xs) @ CHR '']'' # r = c # cs" "c \<noteq> CHR '']''"
      using Cons ser_Cons [of y] by (cases ys) auto
    ultimately show ?thesis
      by (subst parse_value.simps) simp
  qed
next
  case (Obj fs)
  show ?case
  proof (cases fs)
    case Nil
    then show ?thesis by (subst parse_value.simps) simp
  next
    case (Cons kv fs')
    have u: "\<forall>kv \<in> set fs. snd kv \<noteq> Undefined"
      using Obj.prems(1) by auto
    have "parse_members (commas (ser_members fs) @ CHR ''}'' # r) = Some (fs, r)"
    proof (rule parse_members_roundtrip)
      fix kv r assume kv: "kv \<in> set fs" and r: "sep r"
      obtain k v where e: "kv = (k, v)" by (cases kv)
      have "v \<in> Basic_BNFs.snds kv" using e by simp
      moreover have "is_json v" using Obj.prems(1) kv e by auto
      ultimately show "parse_value (ser (snd kv) @ r) = Some (snd kv, r)"
        using Obj.IH [OF kv _ _ r, of v] e by simp
    qed (use u Cons in auto)
    moreover obtain cs where "commas (ser_members fs) @ CHR ''}'' # r = CHR 0x22 # cs"
      using Cons u by (cases kv; cases fs') (auto simp: quote_def)
    moreover have "define_all [] fs = fs"
      using Obj.prems(1) define_all_distinct [of "[]" fs] by simp
    ultimately show ?thesis
      by (subst parse_value.simps) simp
  qed
qed

theorem JSON_roundtrip: "is_json v \<Longrightarrow> JSON_parse (JSON_stringify v) = Inr v"
  using parse_value_roundtrip [of v "[]"]
  by (auto simp: JSON_parse_def JSON_stringify_def)

lemma JSON_stringify_inj:
  "is_json v \<Longrightarrow> is_json w \<Longrightarrow> JSON_stringify v = JSON_stringify w \<Longrightarrow> v = w"
proof -
  assume v: "is_json v" and w: "is_json w" and e: "JSON_stringify v = JSON_stringify w"
  have "Inr v = JSON_parse (JSON_stringify v)"
    using JSON_roundtrip [OF v] by simp
  also have "\<dots> = JSON_parse (JSON_stringify w)"
    by (simp only: e)
  also have "\<dots> = Inr w"
    using JSON_roundtrip [OF w] .
  finally show "v = w" by simp
qed

section \<open>Sets of serialised records\<close>

lemma foldl_Set_add_set: "set (foldl Set_add acc xs) = set acc \<union> set xs"
  by (induction xs arbitrary: acc) (auto simp: Set_add_def)

lemma foldl_Set_add_distinct: "distinct acc \<Longrightarrow> distinct (foldl Set_add acc xs)"
  by (induction xs arbitrary: acc) (auto simp: Set_add_def)

lemma set_Set_new: "set (Set_new xs) = set xs"
  by (simp add: Set_new_def foldl_Set_add_set)

lemma distinct_Set_new: "distinct (Set_new xs)"
  by (simp add: Set_new_def foldl_Set_add_distinct)

lemma foldl_Set_add_map:
  "inj_on f (set acc \<union> set xs) \<Longrightarrow>
   foldl Set_add (map f acc) (map f xs) = map f (foldl Set_add acc xs)"
proof (induction xs arbitrary: acc)
  case Nil
  then show ?case by simp
next
  case (Cons x xs)
  have mem: "f x \<in> f ` set acc \<longleftrightarrow> x \<in> set acc"
    using Cons.prems by (auto dest: inj_onD)
  have step: "Set_add (map f acc) (f x) = map f (Set_add acc x)"
    by (simp add: Set_add_def mem)
  have "set (Set_add acc x) \<union> set xs = set acc \<union> set (x # xs)"
    by (auto simp: Set_add_def)
  then have "inj_on f (set (Set_add acc x) \<union> set xs)"
    using Cons.prems by simp
  then show ?case
    using Cons.IH [of "Set_add acc x"] step by simp
qed

lemma Set_new_map: "inj_on f (set xs) \<Longrightarrow> Set_new (map f xs) = map f (Set_new xs)"
  using foldl_Set_add_map [of f "[]" xs] by (simp add: Set_new_def)

lemma mapE_Inr: "(\<And>x. x \<in> set xs \<Longrightarrow> f x = Inr (g x)) \<Longrightarrow> mapE f xs = Inr (map g xs)"
  by (induction xs) (simp_all add: bindE_def)

lemma mapE_parse_stringify:
  "(\<And>x. x \<in> set xs \<Longrightarrow> is_json x) \<Longrightarrow> mapE JSON_parse (map JSON_stringify xs) = Inr xs"
  by (induction xs) (simp_all add: bindE_def JSON_roundtrip)

lemma inj_on_stringify: "(\<And>x. x \<in> set xs \<Longrightarrow> is_json x) \<Longrightarrow> inj_on JSON_stringify (set xs)"
  by (rule inj_onI) (simp add: JSON_stringify_inj)

lemma unique_json:
  assumes "\<And>x. x \<in> set xs \<Longrightarrow> is_json x"
  shows "mapE JSON_parse (Set_new (map JSON_stringify xs)) = Inr (Set_new xs)"
proof -
  have "Set_new (map JSON_stringify xs) = map JSON_stringify (Set_new xs)"
    using assms by (intro Set_new_map inj_on_stringify)
  moreover have "mapE JSON_parse (map JSON_stringify (Set_new xs)) = Inr (Set_new xs)"
    using assms by (intro mapE_parse_stringify) (simp add: set_Set_new)
  ultimately show ?thesis by simp
qed

lemma is_history_nodes: "is_history b \<Longrightarrow> history_nodes b = Inr (Arr (branch_commits b))"
  by (auto simp: is_history_def branch_commits_def split: sum.splits js.splits)

lemma is_history_json: "is_history b \<Longrightarrow> c \<in> set (branch_commits b) \<Longrightarrow> is_json c"
  by (auto simp: is_history_def branch_commits_def list_all_iff split: sum.splits js.splits)

lemma flat_Arr: "flat (map (\<lambda>b. Arr (f b)) bs) = concat (map f bs)"
  by (induction bs) simp_all

lemma filterDuplicateCommits_histories:
  assumes "\<And>b. b \<in> set bs \<Longrightarrow> is_history b"
  shows "filterDuplicateCommits (Arr bs) = Inr (Set_new (all_commits bs))"
proof -
  have nodes: "mapE history_nodes bs = Inr (map (\<lambda>b. Arr (branch_commits b)) bs)"
    using assms by (intro mapE_Inr) (simp add: is_history_nodes)
  have json: "\<And>c. c \<in> set (all_commits bs) \<Longrightarrow> is_json c"
    using assms by (auto simp: all_commits_def dest: is_history_json)
  show ?thesis
    using unique_json [of "all_commits bs"] json
    by (simp add: filterDuplicateCommits_def nodes bindE_def flat_Arr all_commits_def)
qed

lemma is_branch_history: "is_branch b \<Longrightarrow> is_history b"
  by (auto simp: is_branch_def is_history_def is_commit_def list_all_iff split: sum.splits js.splits)

lemma is_branch_commit: "is_branch b \<Longrightarrow> c \<in> set (branch_commits b) \<Longrightarrow> is_commit c"
  by (auto simp: is_branch_def branch_commits_def list_all_iff split: sum.splits js.splits)

section \<open>The loop\<close>

lemma or_zero_count: "is_count x \<Longrightarrow> or_zero x = Num (case x of Num n \<Rightarrow> n | _ \<Rightarrow> 0)"
  by (cases x) (simp_all add: or_zero_def)

lemma number_exact: "\<bar>i\<bar> \<le> 2 ^ 53 \<Longrightarrow> number i = Num i"
  by (simp add: number_def round_double_def)

lemma js_plus_exact: "\<bar>a + n\<bar> \<le> 2 ^ 53 \<Longrightarrow> js_plus (Num a) (Num n) = Inr (Num (a + n))"
  by (simp add: js_plus_def bindE_def number_exact)

lemma is_number_number: "is_number (number i)"
  by (simp add: number_def Let_def)

lemma js_plus_number:
  "is_number a \<Longrightarrow> \<exists>b. js_plus a (Num n) = Inr b \<and> is_number b"
  by (cases a) (simp_all add: js_plus_def bindE_def is_number_number)

lemma tally_step:
  assumes "is_commit c"
  shows "tally (c # cs) u a d =
     (if authored_by u c
      then bindE (js_plus a (Num (count_of ''additions'' c))) (\<lambda>a'.
           bindE (js_plus d (Num (count_of ''deletions'' c))) (\<lambda>d'.
           tally cs u a' d'))
      else tally cs u a d)"
proof -
  obtain fs where c: "c = Obj fs" using assms by (cases c) (simp_all add: is_commit_def)
  obtain au where au: "field c ''author'' = Obj au"
    using assms by (cases "field c ''author''") (simp_all add: is_commit_def)
  have gau: "get c ''author'' = Inr (Obj au)"
    using au c by (simp add: field_def)
  define user where "user = field (Obj au) ''user''"
  have gu: "get (Obj au) ''user'' = Inr user" by (simp add: field_def user_def)
  have iu: "is_user user" using assms au by (simp add: is_commit_def user_def)
  have ga: "get c ''additions'' = Inr (field c ''additions'')"
    and gd: "get c ''deletions'' = Inr (field c ''deletions'')"
    using c by (simp_all add: field_def)
  have ca: "or_zero (field c ''additions'') = Num (count_of ''additions'' c)"
    and cd: "or_zero (field c ''deletions'') = Num (count_of ''deletions'' c)"
    using assms by (simp_all add: is_commit_def or_zero_count count_of_def)
  have ab: "authored_by u c =
      (case field user ''login'' of Str l \<Rightarrow> toLowerCase l = toLowerCase u | _ \<Rightarrow> False)"
    by (simp add: authored_by_def au user_def)
  show ?thesis
  proof (cases "absent user")
    case True
    then have "\<not> truthy user" and "field user ''login'' = Undefined"
      by (cases user; simp add: field_def)+
    then show ?thesis
      by (simp add: gau gu ab bindE_def del: get.simps)
  next
    case False
    then obtain us where us: "user = Obj us"
      using iu by (cases user) (simp_all add: is_user_def)
    obtain l where l: "field user ''login'' = Str l"
      using iu False by (cases "field user ''login''") (simp_all add: is_user_def)
    have gl: "get user ''login'' = Inr (Str l)"
      using l us by (simp add: field_def)
    have t: "truthy user" using us by simp
    show ?thesis
      by (simp add: gau gu t gl ga gd ab l ca cd bindE_def del: get.simps)
  qed
qed

lemma count_of_int32: "int32 (field c k) \<Longrightarrow> \<bar>count_of k c\<bar> \<le> 2 ^ 31"
  by (cases "field c k") (auto simp: count_of_def)

lemma tally_total:
  assumes "\<And>c. c \<in> set cs \<Longrightarrow> is_commit c"
    and "\<And>c. c \<in> set cs \<Longrightarrow> int32 (field c ''additions'') \<and> int32 (field c ''deletions'')"
    and "\<bar>a\<bar> + int (length cs) * 2 ^ 31 \<le> 2 ^ 53"
    and "\<bar>d\<bar> + int (length cs) * 2 ^ 31 \<le> 2 ^ 53"
  shows "tally cs u (Num a) (Num d) =
     Inr (Num (a + total ''additions'' u cs), Num (d + total ''deletions'' u cs))"
  using assms
proof (induction cs arbitrary: a d)
  case Nil
  then show ?case by (simp add: total_def)
next
  case (Cons c cs)
  have c: "is_commit c" using Cons.prems(1) by simp
  have i: "int32 (field c ''additions'')" "int32 (field c ''deletions'')"
    using Cons.prems(2) [of c] by simp_all
  have na: "\<bar>count_of ''additions'' c\<bar> \<le> 2 ^ 31"
    and nd: "\<bar>count_of ''deletions'' c\<bar> \<le> 2 ^ 31"
    using count_of_int32 [OF i(1)] count_of_int32 [OF i(2)] by simp_all
  have la: "\<bar>a\<bar> + 2 ^ 31 + int (length cs) * 2 ^ 31 \<le> 2 ^ 53"
    and ld: "\<bar>d\<bar> + 2 ^ 31 + int (length cs) * 2 ^ 31 \<le> 2 ^ 53"
    using Cons.prems(3,4) by (simp_all add: algebra_simps)
  show ?case
  proof (cases "authored_by u c")
    case False
    have "tally cs u (Num a) (Num d) =
        Inr (Num (a + total ''additions'' u cs), Num (d + total ''deletions'' u cs))"
      using Cons.prems(1,2) la ld by (intro Cons.IH) auto
    then show ?thesis
      using False by (simp only: tally_step [OF c]) (simp add: total_def)
  next
    case True
    let ?a = "a + count_of ''additions'' c" and ?d = "d + count_of ''deletions'' c"
    have ea: "\<bar>?a\<bar> \<le> 2 ^ 53" and ed: "\<bar>?d\<bar> \<le> 2 ^ 53"
      using na nd la ld by (simp_all add: abs_le_iff) linarith+
    have "tally cs u (Num ?a) (Num ?d) =
        Inr (Num (?a + total ''additions'' u cs), Num (?d + total ''deletions'' u cs))"
      using Cons.prems(1,2) na nd la ld by (intro Cons.IH) auto
    then show ?thesis
      using True
      by (simp only: tally_step [OF c] js_plus_exact [OF ea] js_plus_exact [OF ed])
         (simp add: total_def bindE_def)
  qed
qed

lemma tally_succeeds:
  assumes "\<And>c. c \<in> set cs \<Longrightarrow> is_commit c"
    and "is_number a" and "is_number d"
  shows "\<exists>r. tally cs u a d = Inr r"
  using assms
proof (induction cs arbitrary: a d)
  case Nil
  then show ?case by simp
next
  case (Cons c cs)
  have c: "is_commit c" using Cons.prems(1) by simp
  obtain a' where a': "js_plus a (Num (count_of ''additions'' c)) = Inr a'" "is_number a'"
    using js_plus_number [OF Cons.prems(2)] by blast
  obtain d' where d': "js_plus d (Num (count_of ''deletions'' c)) = Inr d'" "is_number d'"
    using js_plus_number [OF Cons.prems(3)] by blast
  have cs: "\<And>c. c \<in> set cs \<Longrightarrow> is_commit c"
    using Cons.prems(1) by simp
  have "\<exists>r. tally cs u a d = Inr r"
    using cs Cons.prems(2,3) by (rule Cons.IH)
  moreover have "\<exists>r. tally cs u a' d' = Inr r"
    using cs a'(2) d'(2) by (rule Cons.IH)
  ultimately show ?case
    by (simp only: tally_step [OF c] a'(1) d'(1)) (simp add: bindE_def)
qed

lemma tally_limits:
  assumes "\<And>c. c \<in> set cs \<Longrightarrow> is_commit c" and "within_limits cs"
  shows "tally cs u (Num 0) (Num 0) =
     Inr (Num (total ''additions'' u cs), Num (total ''deletions'' u cs))"
proof -
  have "length cs \<le> 2 ^ 22"
    using assms(2) by (simp add: within_limits_def)
  then have "int (length cs) \<le> int (2 ^ 22)"
    by (simp only: of_nat_le_iff)
  then have l: "\<bar>0\<bar> + int (length cs) * 2 ^ 31 \<le> 2 ^ 53"
    by simp
  have i: "\<And>c. c \<in> set cs \<Longrightarrow> int32 (field c ''additions'') \<and> int32 (field c ''deletions'')"
    using assms(2) by (simp add: within_limits_def list_all_iff)
  have "tally cs u (Num 0) (Num 0) =
      Inr (Num (0 + total ''additions'' u cs), Num (0 + total ''deletions'' u cs))"
  proof (rule tally_total)
    show "\<And>c. c \<in> set cs \<Longrightarrow> is_commit c" by (rule assms(1))
    show "\<And>c. c \<in> set cs \<Longrightarrow> int32 (field c ''additions'') \<and> int32 (field c ''deletions'')"
      by (rule i)
    show "\<bar>0\<bar> + int (length cs) * 2 ^ 31 \<le> 2 ^ 53" by (rule l)
    show "\<bar>0\<bar> + int (length cs) * 2 ^ 31 \<le> 2 ^ 53" by (rule l)
  qed
  then show ?thesis by simp
qed

lemma bit_length_numeral:
  "bit_length 0 = 0"
  "bit_length (Suc 0) = 1"
  "bit_length (numeral num.One) = 1"
  "bit_length (numeral (num.Bit0 n)) = Suc (bit_length (numeral n))"
  "bit_length (numeral (num.Bit1 n)) = Suc (bit_length (numeral n))"
proof -
  show "bit_length 0 = 0" "bit_length (Suc 0) = 1" "bit_length (numeral num.One) = 1"
    by (simp_all add: bit_length.simps [of 0] bit_length.simps [of "Suc 0"])
  have "numeral (num.Bit0 n) div 2 = (numeral n :: nat)"
    by (simp add: numeral_Bit0_div_2)
  then show "bit_length (numeral (num.Bit0 n)) = Suc (bit_length (numeral n))"
    by (subst bit_length.simps) simp
  have "numeral (num.Bit1 n) div 2 = (numeral n :: nat)"
    by (simp add: numeral_Bit1_div_2)
  then show "bit_length (numeral (num.Bit1 n)) = Suc (bit_length (numeral n))"
    by (subst bit_length.simps) simp
qed

text \<open>Beyond \<open>2 ^ 53\<close> a sum is rounded, and the order of the summands matters.\<close>

lemma js_plus_rounds: "js_plus (Num (2 ^ 53)) (Num 1) = Inr (Num (2 ^ 53))"
  by (simp add: js_plus_def bindE_def number_def round_double_def bit_length_numeral Let_def)

lemma aggregate_order_beyond_limits:
  "aggregate [commit ''a'' ''u'' (2 ^ 53) 0, commit ''b'' ''u'' 1 0, commit ''c'' ''u'' 1 0] ''u'' =
     Inr (Obj [(''additionsCount'', Num (2 ^ 53)), (''deletionsCount'', Num 0)])
   \<and> aggregate [commit ''b'' ''u'' 1 0, commit ''c'' ''u'' 1 0, commit ''a'' ''u'' (2 ^ 53) 0] ''u'' =
     Inr (Obj [(''additionsCount'', Num (2 ^ 53 + 2)), (''deletionsCount'', Num 0)])"
  by (simp add: aggregate_def commit_def bindE_def counts_def or_zero_def
      js_plus_def number_def round_double_def bit_length_numeral Let_def)

lemma within_limits_mset:
  assumes "mset run = mset cs" and "within_limits cs"
  shows "within_limits run"
proof -
  have "length run = length cs"
    using assms(1) by (rule mset_eq_length)
  moreover have "set run = set cs"
    using assms(1) by (rule mset_eq_setD)
  ultimately show ?thesis
    using assms(2) by (simp add: within_limits_def list_all_iff)
qed

lemma within_limits_Set_new: "within_limits cs \<Longrightarrow> within_limits (Set_new cs)"
proof -
  assume w: "within_limits cs"
  have "length (Set_new cs) = card (set cs)"
    using distinct_card [of "Set_new cs"] by (simp add: distinct_Set_new set_Set_new)
  then have "length (Set_new cs) \<le> length cs"
    by (simp add: card_length)
  then show ?thesis
    using w by (simp add: within_limits_def list_all_iff set_Set_new)
qed

lemma total_distinct:
  "distinct xs \<Longrightarrow> distinct ys \<Longrightarrow> set xs = set ys \<Longrightarrow> total k u xs = total k u ys"
  by (simp add: total_def sum_list_distinct_conv_sum_set)

lemma total_mset: "mset xs = mset ys \<Longrightarrow> total k u xs = total k u ys"
proof -
  assume e: "mset xs = mset ys"
  have "\<And>zs. total k u zs = sum_mset (image_mset (count_of k) (filter_mset (authored_by u) (mset zs)))"
    by (simp add: total_def flip: sum_mset_sum_list)
  then show ?thesis using e by simp
qed

section \<open>Objects\<close>

lemma get_field: "\<not> absent v \<Longrightarrow> get v k = Inr (field v k)"
  by (cases v) (simp_all add: field_def)

lemma is_object_present: "is_object v \<Longrightarrow> \<not> absent v \<and> truthy v \<and> v \<noteq> Null \<and> v \<noteq> Undefined"
  by (cases v) simp_all

lemma field_object_parent: "is_object (field v k) \<Longrightarrow> is_object v"
  by (cases v) (simp_all add: field_def split: if_splits)

lemma field_Null_parent: "field v k = Null \<Longrightarrow> is_object v"
  by (cases v) (simp_all add: field_def split: if_splits)

lemma absent_falsy: "absent v \<Longrightarrow> \<not> truthy v"
  by (cases v) simp_all

lemma map_of_obj_set: "map_of (obj_set fs k v) = (map_of fs)(k \<mapsto> v)"
  by (induction fs) auto

lemma keys_obj_set: "set (map fst (obj_set fs k v)) = insert k (set (map fst fs))"
proof (induction fs)
  case Nil
  then show ?case by simp
next
  case (Cons kv fs)
  obtain k' v' where kv: "kv = (k', v')" by (cases kv)
  show ?case
  proof (cases "k' = k")
    case True
    then show ?thesis using kv by simp
  next
    case False
    then show ?thesis using kv Cons.IH by (simp add: insert_commute)
  qed
qed

lemma distinct_obj_set: "distinct (map fst fs) \<Longrightarrow> distinct (map fst (obj_set fs k v))"
proof (induction fs)
  case Nil
  then show ?case by simp
next
  case (Cons kv fs)
  obtain k' v' where kv: "kv = (k', v')" by (cases kv)
  show ?case
  proof (cases "k' = k")
    case True
    then show ?thesis using Cons.prems kv by simp
  next
    case False
    have "k' \<notin> set (map fst (obj_set fs k v))"
      using False Cons.prems kv by (simp only: keys_obj_set) simp
    then show ?thesis using False Cons kv by simp
  qed
qed

lemma distinct_define_all:
  "distinct (map fst base) \<Longrightarrow> distinct (map fst (define_all base props))"
  unfolding define_all_def
  by (induction props arbitrary: base) (simp_all add: distinct_obj_set)

lemma map_of_define_all:
  "distinct (map fst props) \<Longrightarrow> map_of (define_all base props) = map_of base ++ map_of props"
  unfolding define_all_def
proof (induction props arbitrary: base)
  case Nil
  then show ?case by simp
next
  case (Cons kv props)
  obtain k v where kv: "kv = (k, v)" by (cases kv)
  have fresh: "map_of props k = None"
    using Cons.prems kv by (simp add: map_of_eq_None_iff)
  have "(map_of base)(k \<mapsto> v) ++ map_of props = map_of base ++ map_of (kv # props)"
  proof
    fix x
    show "((map_of base)(k \<mapsto> v) ++ map_of props) x = (map_of base ++ map_of (kv # props)) x"
      using fresh kv by (cases "x = k") (simp_all add: map_add_def split: option.splits)
  qed
  moreover have "foldl (\<lambda>fs kv. obj_set fs (fst kv) (snd kv)) base (kv # props) =
      foldl (\<lambda>fs kv. obj_set fs (fst kv) (snd kv)) (obj_set base k v) props"
    using kv by simp
  moreover have "map_of (foldl (\<lambda>fs kv. obj_set fs (fst kv) (snd kv)) (obj_set base k v) props) =
      map_of (obj_set base k v) ++ map_of props"
    using Cons.IH Cons.prems by simp
  ultimately show ?case
    by (simp only: map_of_obj_set)
qed

section \<open>Responses\<close>

lemma response_data_object:
  assumes "is_object (response_data r)"
  shows "\<exists>res. r = Inr res \<and> payload_data res = Inr (response_data r)"
proof (cases r)
  case (Inl e)
  then show ?thesis using assms by (simp add: response_data_def)
next
  case (Inr res)
  have d: "is_object (field (field res ''data'') ''data'')"
    using assms Inr by (simp add: response_data_def)
  then have b: "is_object (field res ''data'')" by (rule field_object_parent)
  then have "is_object res" by (rule field_object_parent)
  then show ?thesis
    using Inr b is_object_present [of res] is_object_present [of "field res ''data''"]
    by (simp add: payload_data_def response_data_def get_field bindE_def)
qed

lemma is_owner_cases: "is_owner v \<Longrightarrow> v = Null \<or> is_object v"
  by (auto simp: is_owner_def)

lemma owner_lookup_object: "is_owner_lookup data \<Longrightarrow> is_object data"
  using is_owner_cases [of "field data ''user''"]
  by (auto simp: is_owner_lookup_def dest: field_object_parent field_Null_parent)

section \<open>The owner lookup\<close>

lemma fetchRepoMeta_resolved:
  assumes "net (MetaQuery username reponame) = Inr res"
    and "payload_data res = Inr data"
    and "is_object data"
  shows "fetchRepoMeta net username reponame log =
     ((let user = field data ''user''; organization = field data ''organization'' in
       if \<not> truthy user \<and> \<not> truthy organization then Inl (Error ''Not found'')
       else if organization = Null \<and> truthy user
         then repository_of user ''User Repository Not found''
       else if user = Null \<and> truthy organization
         then repository_of organization ''Organization Repository Not found''
       else Inl (Error ''Unexpected behavior'')),
      log @ [MetaQuery username reponame])"
  using assms is_object_present [of data]
  by (auto simp: fetchRepoMeta_def bindIO_def retryer_def liftE_def throw_def get_field Let_def)

lemma repository_of_unusable:
  "\<not> absent owner \<Longrightarrow> \<not> usable owner \<Longrightarrow> repository_of owner m = Inl (Error m)"
  by (cases "absent (field owner ''repository'')")
     (auto simp: repository_of_def usable_def get_field bindE_def absent_falsy)

lemma repository_of_usable:
  assumes "\<not> absent owner" and "usable owner" and "field owner ''repository'' = Obj rs"
    and "is_repository (Obj rs)"
  shows "\<exists>fs. repository_of owner m = Inr (Obj fs)
     \<and> distinct (map fst fs)
     \<and> map_of fs = (map_of rs)(''starCount'' \<mapsto> field (field (Obj rs) ''stargazers'') ''totalCount'')"
proof -
  have d: "distinct (map fst rs)" using assms(4) by (simp add: is_repository_def)
  have s: "\<not> absent (field (Obj rs) ''stargazers'')" using assms(4) by (simp add: is_repository_def)
  have p: "\<not> truthy (field (Obj rs) ''isPrivate'')" using assms(2,3) by (simp add: usable_def)
  have da: "define_all [] rs = rs" using d define_all_distinct [of "[]" rs] by simp
  have "repository_of owner m =
      Inr (Obj (obj_set rs ''starCount'' (field (field (Obj rs) ''stargazers'') ''totalCount'')))"
    using assms(1,3) s p
    by (simp add: repository_of_def get_field bindE_def da del: get.simps)
  then show ?thesis
    using d by (simp add: map_of_obj_set distinct_obj_set)
qed

section \<open>The commit lookup\<close>

lemma fetchRepoCommits_no_identity:
  assumes "net (IdQuery username) = Inr res_id"
    and "payload_data res_id = Inr data_id"
    and "is_object data_id"
    and "\<not> truthy (field data_id ''user'')"
  shows "fetchRepoCommits net username reponame log = (Inl (Error ''Not found''), log @ [IdQuery username])"
  using assms is_object_present [of data_id]
  by (simp add: fetchRepoCommits_def bindIO_def retryer_def liftE_def throw_def get_field)

lemma fetchRepoCommits_resolved:
  assumes "net (IdQuery username) = Inr res_id"
    and "payload_data res_id = Inr data_id"
    and "is_object (field data_id ''user'')"
    and "net (CommitsQuery username reponame (field (field data_id ''user'') ''id'')) = Inr res"
    and "payload_data res = Inr data"
    and "is_refs_lookup data"
  shows "fetchRepoCommits net username reponame log =
     ((let repository = field data ''repository''; refs = field repository ''refs'' in
       if absent repository \<or> absent refs then Inl (Error ''Repository or refs not found'')
       else if field refs ''nodes'' = Arr [] then Inl (Error ''No commits found'')
       else totalAdditionsAndDeletionsByUser (field refs ''nodes'') username),
      log @ [IdQuery username, CommitsQuery username reponame (field (field data_id ''user'') ''id'')])"
proof -
  let ?user = "field data_id ''user''"
  let ?repository = "field data ''repository''"
  let ?refs = "field ?repository ''refs''"
  have di: "\<not> absent data_id"
    using assms(3) field_object_parent is_object_present by blast
  have u: "\<not> absent ?user" "truthy ?user"
    using assms(3) is_object_present by blast+
  have d: "\<not> absent data"
    using assms(6) is_object_present by (auto simp: is_refs_lookup_def Let_def)
  have start: "fetchRepoCommits net username reponame log =
      ((if \<not> truthy ?repository then Inl (Error ''Repository or refs not found'')
        else bindE (get ?repository ''refs'') (\<lambda>refs.
          if \<not> truthy refs then Inl (Error ''Repository or refs not found'')
          else bindE (get refs ''nodes'') (\<lambda>nodes. bindE (get nodes ''length'') (\<lambda>len.
            if len = Num 0 then Inl (Error ''No commits found'')
            else totalAdditionsAndDeletionsByUser nodes username)))),
       log @ [IdQuery username, CommitsQuery username reponame (field ?user ''id'')])"
    using assms(1,2,4,5) di u d
    by (simp add: fetchRepoCommits_def bindIO_def retryer_def liftE_def throw_def get_field bindE_def
        split: sum.splits del: get.simps)
  show ?thesis
  proof (cases "absent ?repository")
    case True
    then show ?thesis by (simp add: start absent_falsy Let_def)
  next
    case repo: False
    then have ro: "is_object ?repository"
      using assms(6) by (auto simp: is_refs_lookup_def Let_def)
    show ?thesis
    proof (cases "absent ?refs")
      case True
      then show ?thesis
        using repo ro is_object_present [of ?repository]
        by (simp add: start absent_falsy Let_def get_field bindE_def del: get.simps)
    next
      case refs: False
      then have fo: "is_object ?refs" and arr: "is_array (field ?refs ''nodes'')"
        using assms(6) repo by (auto simp: is_refs_lookup_def Let_def)
      obtain ns where ns: "field ?refs ''nodes'' = Arr ns"
        using arr by (cases "field ?refs ''nodes''") simp_all
      have len: "get (Arr ns) ''length'' = Inr (Num (int (length ns)))" by simp
      show ?thesis
        using repo refs ro fo is_object_present [of ?repository] is_object_present [of ?refs]
        by (simp add: start Let_def get_field bindE_def ns len del: get.simps)
    qed
  qed
qed

lemma meta_data_resolved:
  assumes "is_object (meta_data net username reponame)"
  shows "\<exists>res. net (MetaQuery username reponame) = Inr res
     \<and> payload_data res = Inr (meta_data net username reponame)"
  using response_data_object [of "net (MetaQuery username reponame)"] assms
  by (simp add: meta_data_def)

lemma fetchRepoMeta_object:
  assumes "is_object (meta_data net username reponame)"
  shows "fetchRepoMeta net username reponame log =
     ((let user = field (meta_data net username reponame) ''user'';
           organization = field (meta_data net username reponame) ''organization'' in
       if \<not> truthy user \<and> \<not> truthy organization then Inl (Error ''Not found'')
       else if organization = Null \<and> truthy user
         then repository_of user ''User Repository Not found''
       else if user = Null \<and> truthy organization
         then repository_of organization ''Organization Repository Not found''
       else Inl (Error ''Unexpected behavior'')),
      log @ [MetaQuery username reponame])"
proof -
  obtain res where "net (MetaQuery username reponame) = Inr res"
    and "payload_data res = Inr (meta_data net username reponame)"
    using meta_data_resolved [OF assms] by blast
  then show ?thesis
    using assms by (rule fetchRepoMeta_resolved)
qed

lemma fetchRepoMeta_lookup:
  assumes "is_owner_lookup (meta_data net username reponame)"
  shows "fetchRepoMeta net username reponame log =
     ((let user = field (meta_data net username reponame) ''user'';
           organization = field (meta_data net username reponame) ''organization'' in
       if user = Null \<and> organization = Null then Inl (Error ''Not found'')
       else if user \<noteq> Null \<and> organization \<noteq> Null then Inl (Error ''Unexpected behavior'')
       else if organization = Null then repository_of user ''User Repository Not found''
       else repository_of organization ''Organization Repository Not found''),
      log @ [MetaQuery username reponame])"
proof -
  let ?data = "meta_data net username reponame"
  have obj: "is_object ?data" using assms by (rule owner_lookup_object)
  have u: "field ?data ''user'' = Null \<or> is_object (field ?data ''user'')"
    and g: "field ?data ''organization'' = Null \<or> is_object (field ?data ''organization'')"
    using assms by (simp_all add: is_owner_lookup_def is_owner_cases)
  show ?thesis
    using u g is_object_present [of "field ?data ''user''"]
      is_object_present [of "field ?data ''organization''"]
    by (auto simp: fetchRepoMeta_object [OF obj] Let_def)
qed

lemma repository_of_owner:
  assumes "is_owner owner" and "owner \<noteq> Null"
  shows "(\<not> usable owner \<longrightarrow> repository_of owner m = Inl (Error m))
     \<and> (usable owner \<longrightarrow>
          (\<exists>rs fs. field owner ''repository'' = Obj rs
             \<and> repository_of owner m = Inr (Obj fs)
             \<and> distinct (map fst fs)
             \<and> map_of fs =
                 (map_of rs)(''starCount'' \<mapsto> field (field (Obj rs) ''stargazers'') ''totalCount'')))"
proof -
  have o: "is_object owner" using assms is_owner_cases by blast
  then have p: "\<not> absent owner" using is_object_present by blast
  show ?thesis
  proof (cases "usable owner")
    case False
    then show ?thesis using p by (simp add: repository_of_unusable)
  next
    case True
    then have "\<not> absent (field owner ''repository'')"
      using absent_falsy by (auto simp: usable_def)
    then have r: "is_repository (field owner ''repository'')"
      using assms by (auto simp: is_owner_def)
    then obtain rs where rs: "field owner ''repository'' = Obj rs"
      by (cases "field owner ''repository''") (simp_all add: is_repository_def)
    show ?thesis
      using True rs repository_of_usable [OF p True rs, of m] r by simp
  qed
qed

lemma id_data_resolved:
  assumes "is_object (id_data net username)"
  shows "\<exists>res. net (IdQuery username) = Inr res \<and> payload_data res = Inr (id_data net username)"
  using response_data_object [of "net (IdQuery username)"] assms
  by (simp add: id_data_def)

lemma commits_data_resolved:
  assumes "is_object (commits_data net username reponame)"
  shows "\<exists>res. net (CommitsQuery username reponame (field (field (id_data net username) ''user'') ''id'')) = Inr res
     \<and> payload_data res = Inr (commits_data net username reponame)"
  using response_data_object
    [of "net (CommitsQuery username reponame (field (field (id_data net username) ''user'') ''id''))"] assms
  by (simp add: commits_data_def)

lemma fetchRepoCommits_lookup:
  assumes "is_identity (id_data net username)"
    and "field (id_data net username) ''user'' \<noteq> Null \<longrightarrow>
           is_refs_lookup (commits_data net username reponame)"
  shows "fetchRepoCommits net username reponame log =
     (let user = field (id_data net username) ''user'';
          repository = field (commits_data net username reponame) ''repository'';
          refs = field repository ''refs'';
          nodes = field refs ''nodes'' in
      if user = Null then (Inl (Error ''Not found''), log @ [IdQuery username])
      else
        (if absent repository \<or> absent refs then Inl (Error ''Repository or refs not found'')
         else if nodes = Arr [] then Inl (Error ''No commits found'')
         else totalAdditionsAndDeletionsByUser nodes username,
         log @ [IdQuery username, CommitsQuery username reponame (field user ''id'')]))"
proof -
  let ?idd = "id_data net username"
  have io: "is_object ?idd"
    using assms(1) by (auto simp: is_identity_def dest: field_object_parent field_Null_parent)
  obtain res_id where rid: "net (IdQuery username) = Inr res_id" "payload_data res_id = Inr ?idd"
    using id_data_resolved [OF io] by blast
  show ?thesis
  proof (cases "field ?idd ''user'' = Null")
    case True
    then have "\<not> truthy (field ?idd ''user'')" by simp
    then have "fetchRepoCommits net username reponame log =
        (Inl (Error ''Not found''), log @ [IdQuery username])"
      using rid io by (intro fetchRepoCommits_no_identity)
    then show ?thesis using True by (simp add: Let_def)
  next
    case False
    then have uo: "is_object (field ?idd ''user'')"
      using assms(1) by (simp add: is_identity_def)
    have rl: "is_refs_lookup (commits_data net username reponame)"
      using assms(2) False by simp
    then have "is_object (commits_data net username reponame)"
      by (simp add: is_refs_lookup_def Let_def)
    then obtain res where res:
      "net (CommitsQuery username reponame (field (field ?idd ''user'') ''id'')) = Inr res"
      "payload_data res = Inr (commits_data net username reponame)"
      using commits_data_resolved by blast
    have "fetchRepoCommits net username reponame log =
     ((let repository = field (commits_data net username reponame) ''repository'';
           refs = field repository ''refs'' in
       if absent repository \<or> absent refs then Inl (Error ''Repository or refs not found'')
       else if field refs ''nodes'' = Arr [] then Inl (Error ''No commits found'')
       else totalAdditionsAndDeletionsByUser (field refs ''nodes'') username),
      log @ [IdQuery username, CommitsQuery username reponame (field (field ?idd ''user'') ''id'')])"
      using rid uo res rl by (rule fetchRepoCommits_resolved)
    then show ?thesis
      using False by (simp add: Let_def)
  qed
qed

lemma fetchRepo_run:
  "username \<noteq> [] \<Longrightarrow> reponame \<noteq> [] \<Longrightarrow>
   fetchRepo net username reponame log =
     (case fetchRepoMeta net username reponame log of
        (Inl e, log1) \<Rightarrow> (Inl e, log1)
      | (Inr repoMeta, log1) \<Rightarrow>
          (case fetchRepoCommits net username reponame log1 of
             (Inl e, log2) \<Rightarrow> (Inl e, log2)
           | (Inr repoCommits, log2) \<Rightarrow>
               (Inr (Obj (define_all (define_all [] (spread repoMeta)) (spread repoCommits))), log2)))"
  by (simp add: fetchRepo_def bindIO_def liftE_def split: prod.splits sum.splits)

lemma shared_branches_ok: "list_all is_branch shared_branches"
  by (simp add: shared_branches_def branch_def commit_def anonymous_commit_def partial_commit_def
      is_branch_def history_nodes_def bindE_def is_commit_def field_def is_user_def)

lemma example_branches_ok: "list_all is_branch example_branches"
  by (simp add: example_branches_def branch_def commit_def is_branch_def history_nodes_def
      bindE_def is_commit_def field_def is_user_def)

lemma shared_commits:
  "all_commits shared_branches =
     [commit ''abc123'' ''TestUser'' 10 5, commit ''def456'' ''testuser'' 15 3,
      commit ''abc123'' ''TestUser'' 10 5, commit ''abc123'' ''TestUser'' 11 5,
      commit ''0a1b2c'' ''testuser'' 1 2, commit ''ffffff'' ''other'' 100 100,
      anonymous_commit, partial_commit]"
  by (simp add: shared_branches_def all_commits_def branch_commits_def branch_def
      history_nodes_def bindE_def)

lemma reconciler_succeeds:
  assumes "list_all is_branch bs"
  shows "\<exists>aggregated. totalAdditionsAndDeletionsByUser (Arr bs) username = Inr aggregated"
proof -
  have hist: "\<And>b. b \<in> set bs \<Longrightarrow> is_history b"
    using assms by (simp add: is_branch_history list_all_iff)
  have commits: "\<And>c. c \<in> set (Set_new (all_commits bs)) \<Longrightarrow> is_commit c"
    using assms by (auto simp: set_Set_new all_commits_def list_all_iff dest: is_branch_commit)
  obtain r where "tally (Set_new (all_commits bs)) username (Num 0) (Num 0) = Inr r"
    using tally_succeeds [where cs = "Set_new (all_commits bs)" and a = "Num 0" and d = "Num 0"
        and u = username] commits
    by auto
  then show ?thesis
    by (simp add: totalAdditionsAndDeletionsByUser_def filterDuplicateCommits_histories [OF hist]
        aggregate_def bindE_def counts_def)
qed

lemma reconciler_survivors:
  assumes "list_all is_branch bs" and "within_limits (all_commits bs)"
  shows "totalAdditionsAndDeletionsByUser (Arr bs) username =
     Inr (Obj [(''additionsCount'', Num (total ''additions'' username (Set_new (all_commits bs)))),
               (''deletionsCount'', Num (total ''deletions'' username (Set_new (all_commits bs))))])"
proof -
  have hist: "\<And>b. b \<in> set bs \<Longrightarrow> is_history b"
    using assms(1) by (simp add: is_branch_history list_all_iff)
  have commits: "\<And>c. c \<in> set (Set_new (all_commits bs)) \<Longrightarrow> is_commit c"
    using assms(1) by (auto simp: set_Set_new all_commits_def list_all_iff dest: is_branch_commit)
  show ?thesis
    by (simp add: totalAdditionsAndDeletionsByUser_def filterDuplicateCommits_histories [OF hist]
        aggregate_def tally_limits [OF commits within_limits_Set_new [OF assms(2)]]
        bindE_def counts_def)
qed

lemma reconciler_total:
  assumes "list_all is_branch bs" and "within_limits (all_commits bs)"
  shows "totalAdditionsAndDeletionsByUser (Arr bs) username =
     Inr (Obj [(''additionsCount'', Num (total ''additions'' username (remdups (all_commits bs)))),
               (''deletionsCount'', Num (total ''deletions'' username (remdups (all_commits bs))))])"
proof -
  have same: "\<And>k. total k username (Set_new (all_commits bs)) = total k username (remdups (all_commits bs))"
    by (rule total_distinct) (simp_all add: distinct_Set_new set_Set_new)
  show ?thesis
    by (simp add: reconciler_survivors [OF assms] same)
qed

lemma shared_survivors:
  "Set_new (all_commits shared_branches) =
     [commit ''abc123'' ''TestUser'' 10 5, commit ''def456'' ''testuser'' 15 3,
      commit ''abc123'' ''TestUser'' 11 5, commit ''0a1b2c'' ''testuser'' 1 2,
      commit ''ffffff'' ''other'' 100 100, anonymous_commit, partial_commit]"
  by (simp add: shared_commits Set_new_def Set_add_def commit_def anonymous_commit_def
      partial_commit_def)

lemma shared_limits: "within_limits (all_commits shared_branches)"
  by (simp add: shared_commits within_limits_def commit_def anonymous_commit_def
      partial_commit_def field_def)

lemma example_commits_listed:
  "all_commits example_branches =
     [commit ''abc123'' ''testuser'' 10 5, commit ''def456'' ''testuser'' 15 3]"
  by (simp add: example_branches_def all_commits_def branch_commits_def branch_def
      history_nodes_def bindE_def)

lemma example_limits: "within_limits (all_commits example_branches)"
  by (simp add: example_commits_listed within_limits_def commit_def field_def)

lemmas example_counts = total_def commit_def anonymous_commit_def partial_commit_def
  authored_by_def count_of_def field_def toLowerCase_def lower_char_def char_of_eq_iff

text \<open>
  C1.  The Commit Reconciler removes duplicates by equality of the whole record, and
  counts what is left.  Of the commit records listed by the branch histories every one
  survives, and survives once: the survivors are a list without repetition of exactly
  the listed records.  The counts returned are the sums of the counters over that list,
  over the records of the requested login.  So a record listed on two branches adds
  its counters once, and two records that differ in any field (the hash may be the
  same) each add their own.  Two records are equal when they have the same properties
  with the same values in the same order, as the records of one response have.  The
  counters are within the limits of one response, where every sum is exact.
\<close>

theorem filterDuplicateCommits_structural:
  assumes "list_all is_branch bs" and "within_limits (all_commits bs)"
  shows "\<exists>cs. filterDuplicateCommits (Arr bs) = Inr cs
           \<and> distinct cs \<and> set cs = set (all_commits bs)
           \<and> totalAdditionsAndDeletionsByUser (Arr bs) username =
               Inr (Obj [(''additionsCount'', Num (total ''additions'' username cs)),
                         (''deletionsCount'', Num (total ''deletions'' username cs))])"
proof -
  have hist: "\<And>b. b \<in> set bs \<Longrightarrow> is_history b"
    using assms(1) by (simp add: is_branch_history list_all_iff)
  show ?thesis
    by (simp add: filterDuplicateCommits_histories [OF hist] distinct_Set_new set_Set_new
        reconciler_survivors [OF assms])
qed

text \<open>
  The branches of the witness list eight records, of which the first is listed on both
  branches, and a third has the hash of the first with other additions.  Counted as
  listed, the additions of \<^verbatim>\<open>testuser\<close> would be 47 and the deletions 24; the seven
  survivors give 37 and 19: the shared record (10 and 5) is counted once, the record
  with the same hash (11 and 5) as well.
\<close>

theorem filterDuplicateCommits_structural_witness:
  "list_all is_branch shared_branches
   \<and> within_limits (all_commits shared_branches)
   \<and> all_commits shared_branches =
       [commit ''abc123'' ''TestUser'' 10 5, commit ''def456'' ''testuser'' 15 3,
        commit ''abc123'' ''TestUser'' 10 5, commit ''abc123'' ''TestUser'' 11 5,
        commit ''0a1b2c'' ''testuser'' 1 2, commit ''ffffff'' ''other'' 100 100,
        anonymous_commit, partial_commit]
   \<and> total ''additions'' ''testuser'' (all_commits shared_branches) = 47
   \<and> total ''deletions'' ''testuser'' (all_commits shared_branches) = 24
   \<and> filterDuplicateCommits (Arr shared_branches) =
       Inr [commit ''abc123'' ''TestUser'' 10 5, commit ''def456'' ''testuser'' 15 3,
            commit ''abc123'' ''TestUser'' 11 5, commit ''0a1b2c'' ''testuser'' 1 2,
            commit ''ffffff'' ''other'' 100 100, anonymous_commit, partial_commit]
   \<and> totalAdditionsAndDeletionsByUser (Arr shared_branches) ''testuser'' =
       Inr (Obj [(''additionsCount'', Num 37), (''deletionsCount'', Num 19)])"
proof -
  let ?cs = "[commit ''abc123'' ''TestUser'' 10 5, commit ''def456'' ''testuser'' 15 3,
      commit ''abc123'' ''TestUser'' 11 5, commit ''0a1b2c'' ''testuser'' 1 2,
      commit ''ffffff'' ''other'' 100 100, anonymous_commit, partial_commit]"
  have hist: "\<And>b. b \<in> set shared_branches \<Longrightarrow> is_history b"
    using shared_branches_ok by (simp add: is_branch_history list_all_iff)
  have f: "filterDuplicateCommits (Arr shared_branches) = Inr ?cs"
    by (simp only: filterDuplicateCommits_histories [OF hist] shared_survivors)
  have listed: "total ''additions'' ''testuser'' (all_commits shared_branches) = 47"
    "total ''deletions'' ''testuser'' (all_commits shared_branches) = 24"
    by (simp_all add: shared_commits example_counts)
  have kept: "total ''additions'' ''testuser'' ?cs = 37" "total ''deletions'' ''testuser'' ?cs = 19"
    by (simp_all add: example_counts)
  have "totalAdditionsAndDeletionsByUser (Arr shared_branches) ''testuser'' =
      Inr (Obj [(''additionsCount'', Num (total ''additions'' ''testuser'' ?cs)),
                (''deletionsCount'', Num (total ''deletions'' ''testuser'' ?cs))])"
    using filterDuplicateCommits_structural [OF shared_branches_ok shared_limits, of "''testuser''"]
    by (simp only: f) simp
  then have "totalAdditionsAndDeletionsByUser (Arr shared_branches) ''testuser'' =
      Inr (Obj [(''additionsCount'', Num 37), (''deletionsCount'', Num 19)])"
    by (simp only: kept)
  then show ?thesis
    using shared_branches_ok shared_limits shared_commits listed f by blast
qed

text \<open>
  C2.  For branch histories of commit records within the limits of one response, and
  any login, the aggregate is the sum of the additions, and the sum of the deletions,
  over the records deduplicated by equality whose author's user has the requested
  login up to letter case.  A record whose user is null is not \<open>authored_by\<close> anybody,
  and a missing field is a \<open>count_of\<close> zero.  Within the limits every addition of the
  loop is exact; beyond \<open>2 ^ 53\<close> a sum of doubles is rounded (\<open>js_plus_rounds\<close>), and
  is no longer the sum of the integers.
\<close>

theorem totalAdditionsAndDeletionsByUser_sum:
  assumes "list_all is_branch bs" and "within_limits (all_commits bs)"
  shows "totalAdditionsAndDeletionsByUser (Arr bs) username =
     Inr (Obj [(''additionsCount'', Num (total ''additions'' username (remdups (all_commits bs)))),
               (''deletionsCount'', Num (total ''deletions'' username (remdups (all_commits bs))))])"
  using assms by (rule reconciler_total)

theorem totalAdditionsAndDeletionsByUser_sum_witness:
  "list_all is_branch shared_branches
   \<and> within_limits (all_commits shared_branches)
   \<and> totalAdditionsAndDeletionsByUser (Arr shared_branches) ''testuser'' =
       Inr (Obj [(''additionsCount'', Num 37), (''deletionsCount'', Num 19)])"
proof -
  have a: "total ''additions'' ''testuser'' (remdups (all_commits shared_branches)) = 37"
    by (simp add: shared_commits example_counts)
  have d: "total ''deletions'' ''testuser'' (remdups (all_commits shared_branches)) = 19"
    by (simp add: shared_commits example_counts)
  show ?thesis
    using shared_branches_ok shared_limits
      totalAdditionsAndDeletionsByUser_sum [OF shared_branches_ok shared_limits, of "''testuser''"]
    by (simp add: a d)
qed

text \<open>
  C8.  The totals do not depend on the order in which the set of deduplicated records
  is enumerated: for branch histories of commit records within the limits of one
  response, two runs that go through the unique commits in any two orders both end
  with the counts of \<^verbatim>\<open>totalAdditionsAndDeletionsByUser\<close>, the sums over the unique
  commits.  (Beyond the limits the order can matter, since a sum of doubles is rounded:
  \<open>aggregate_order_beyond_limits\<close>.)
\<close>

theorem aggregate_deterministic:
  assumes "list_all is_branch bs"
    and "within_limits (all_commits bs)"
    and "filterDuplicateCommits (Arr bs) = Inr uniqueCommits"
    and "mset run1 = mset uniqueCommits"
    and "mset run2 = mset uniqueCommits"
  shows "aggregate run1 username = aggregate run2 username
     \<and> aggregate run1 username = totalAdditionsAndDeletionsByUser (Arr bs) username
     \<and> aggregate run1 username =
         Inr (Obj [(''additionsCount'', Num (total ''additions'' username uniqueCommits)),
                   (''deletionsCount'', Num (total ''deletions'' username uniqueCommits))])"
proof -
  have hist: "\<And>b. b \<in> set bs \<Longrightarrow> is_history b"
    using assms(1) by (simp add: is_branch_history list_all_iff)
  have u: "uniqueCommits = Set_new (all_commits bs)"
    using assms(3) filterDuplicateCommits_histories [OF hist] by simp
  have commits: "\<And>c. c \<in> set uniqueCommits \<Longrightarrow> is_commit c"
    using assms(1) u by (auto simp: set_Set_new all_commits_def list_all_iff dest: is_branch_commit)
  have limits: "within_limits uniqueCommits"
    using assms(2) u by (simp add: within_limits_Set_new)
  have run: "aggregate run username =
      Inr (Obj [(''additionsCount'', Num (total ''additions'' username uniqueCommits)),
                (''deletionsCount'', Num (total ''deletions'' username uniqueCommits))])"
    if m: "mset run = mset uniqueCommits" for run
  proof -
    have c: "\<And>c. c \<in> set run \<Longrightarrow> is_commit c"
      using commits m by (metis set_mset_mset)
    have l: "within_limits run"
      using m limits by (rule within_limits_mset)
    show ?thesis
      by (simp add: aggregate_def tally_limits [OF c l] total_mset [OF m] bindE_def counts_def)
  qed
  have "totalAdditionsAndDeletionsByUser (Arr bs) username = aggregate uniqueCommits username"
    by (simp add: totalAdditionsAndDeletionsByUser_def assms(3) bindE_def)
  then show ?thesis
    using run [OF assms(4)] run [OF assms(5)] run [of uniqueCommits] by simp
qed

theorem aggregate_deterministic_witness:
  "list_all is_branch example_branches
   \<and> within_limits (all_commits example_branches)
   \<and> filterDuplicateCommits (Arr example_branches) =
       Inr [commit ''abc123'' ''testuser'' 10 5, commit ''def456'' ''testuser'' 15 3]
   \<and> mset [commit ''abc123'' ''testuser'' 10 5, commit ''def456'' ''testuser'' 15 3] =
       mset [commit ''abc123'' ''testuser'' 10 5, commit ''def456'' ''testuser'' 15 3]
   \<and> mset [commit ''def456'' ''testuser'' 15 3, commit ''abc123'' ''testuser'' 10 5] =
       mset [commit ''abc123'' ''testuser'' 10 5, commit ''def456'' ''testuser'' 15 3]
   \<and> aggregate [commit ''abc123'' ''testuser'' 10 5, commit ''def456'' ''testuser'' 15 3] ''testuser'' =
       Inr (Obj [(''additionsCount'', Num 25), (''deletionsCount'', Num 8)])
   \<and> aggregate [commit ''def456'' ''testuser'' 15 3, commit ''abc123'' ''testuser'' 10 5] ''testuser'' =
       Inr (Obj [(''additionsCount'', Num 25), (''deletionsCount'', Num 8)])
   \<and> totalAdditionsAndDeletionsByUser (Arr example_branches) ''testuser'' =
       Inr (Obj [(''additionsCount'', Num 25), (''deletionsCount'', Num 8)])"
proof -
  let ?a = "commit ''abc123'' ''testuser'' 10 5" and ?b = "commit ''def456'' ''testuser'' 15 3"
  have hist: "\<And>b. b \<in> set example_branches \<Longrightarrow> is_history b"
    using example_branches_ok by (simp add: is_branch_history list_all_iff)
  have ne: "?a \<noteq> ?b" by (simp add: commit_def)
  have f: "filterDuplicateCommits (Arr example_branches) = Inr [?a, ?b]"
    using ne
    by (simp add: filterDuplicateCommits_histories [OF hist] example_commits_listed Set_new_def
        Set_add_def)
  have m1: "mset [?a, ?b] = mset [?a, ?b]" by simp
  have m2: "mset [?b, ?a] = mset [?a, ?b]" by (simp add: add_mset_commute)
  have t: "total ''additions'' ''testuser'' [?a, ?b] = 25" "total ''deletions'' ''testuser'' [?a, ?b] = 8"
    by (simp_all add: example_counts)
  note runs = aggregate_deterministic [OF example_branches_ok example_limits f m1 m2, of "''testuser''"]
  have r1: "aggregate [?a, ?b] ''testuser'' =
      Inr (Obj [(''additionsCount'', Num 25), (''deletionsCount'', Num 8)])"
    using runs [THEN conjunct2, THEN conjunct2] by (simp only: t)
  have r2: "aggregate [?b, ?a] ''testuser'' =
      Inr (Obj [(''additionsCount'', Num 25), (''deletionsCount'', Num 8)])"
    using runs [THEN conjunct1] r1 by simp
  have r: "totalAdditionsAndDeletionsByUser (Arr example_branches) ''testuser'' =
      Inr (Obj [(''additionsCount'', Num 25), (''deletionsCount'', Num 8)])"
    using runs [THEN conjunct2, THEN conjunct1] r1 by simp
  show ?thesis
    using example_branches_ok example_limits f m1 m2 r1 r2 r by blast
qed

section \<open>The example responses\<close>

lemma service_lookups:
  "meta_data (service m i c) u r = m"
  "id_data (service m i c) u = i"
  "commits_data (service m i c) u r = c"
  by (simp_all add: meta_data_def id_data_def commits_data_def response_data_def response_def
      field_def service_def)

lemmas example_nets = example_net_def unknown_net_def organization_net_def

lemmas example_bodies = owners_def owner_of_def known_user_def no_user_def refs_of_def field_def

lemma example_repository_ok: "is_repository example_repository"
  by (simp add: is_repository_def example_repository_def field_def)

lemma example_repository_object: "is_object example_repository \<and> truthy example_repository"
  by (simp add: example_repository_def)

lemma example_repository_public: "\<not> truthy (field example_repository ''isPrivate'')"
  by (simp add: example_repository_def field_def)

section \<open>The claims about the fetchers\<close>

text \<open>
  C7.  With an empty user name or an empty repository name \<^verbatim>\<open>fetchRepo\<close> fails with the
  parameter error that lists the empty ones (\<^verbatim>\<open>username\<close>, \<^verbatim>\<open>repo\<close>, in this order), and
  the log of network calls is as it was: nothing has been sent.
\<close>

theorem fetchRepo_missing_params:
  assumes "username = [] \<or> reponame = []"
  shows "fetchRepo net username reponame log =
     (Inl (MissingParamError
            ((if username = [] then [''username''] else []) @ (if reponame = [] then [''repo''] else []))
            urlExample),
      log)"
  using assms by (auto simp: fetchRepo_def throw_def)

theorem fetchRepo_missing_params_witness:
  "fetchRepo example_net [] [] [] = (Inl (MissingParamError [''username'', ''repo''] urlExample), [])
   \<and> fetchRepo example_net [] ''tlsscanner'' [] = (Inl (MissingParamError [''username''] urlExample), [])
   \<and> fetchRepo example_net ''testuser'' [] [] = (Inl (MissingParamError [''repo''] urlExample), [])"
  using fetchRepo_missing_params [of "[]" "[]" example_net "[]"]
    fetchRepo_missing_params [of "[]" "''tlsscanner''" example_net "[]"]
    fetchRepo_missing_params [of "''testuser''" "[]" example_net "[]"]
  by simp

text \<open>
  C4.  When one namespace of the metadata response is an owner, the other one is null,
  and the owner's repository is there and not private, \<^verbatim>\<open>fetchRepoMeta\<close> returns an
  object that has the properties of that repository and, as \<^verbatim>\<open>starCount\<close>, its
  \<^verbatim>\<open>stargazers.totalCount\<close>; the same for a user and for an organization.
\<close>

theorem fetchRepoMeta_owner:
  assumes "(own, other) = (''user'', ''organization'') \<or> (own, other) = (''organization'', ''user'')"
    and "is_owner (field (meta_data net username reponame) own)"
    and "field (meta_data net username reponame) own \<noteq> Null"
    and "field (meta_data net username reponame) other = Null"
    and "usable (field (meta_data net username reponame) own)"
  shows "\<exists>fs. fetchRepoMeta net username reponame log = (Inr (Obj fs), log @ [MetaQuery username reponame])
     \<and> (\<forall>k. field (Obj fs) k =
          (let repository = field (field (meta_data net username reponame) own) ''repository'' in
           if k = ''starCount'' then field (field repository ''stargazers'') ''totalCount''
           else field repository k))"
proof -
  let ?data = "meta_data net username reponame"
  have l: "is_owner_lookup ?data"
    using assms(1,2,4) by (auto simp: is_owner_lookup_def is_owner_def)
  define message where "message =
     (if own = ''user'' then ''User Repository Not found'' else ''Organization Repository Not found'')"
  obtain rs fs where r: "field (field ?data own) ''repository'' = Obj rs"
    and f: "repository_of (field ?data own) message = Inr (Obj fs)"
    and m: "map_of fs =
        (map_of rs)(''starCount'' \<mapsto> field (field (Obj rs) ''stargazers'') ''totalCount'')"
    using repository_of_owner [OF assms(2,3), of message] assms(5) by blast
  have "fetchRepoMeta net username reponame log = (Inr (Obj fs), log @ [MetaQuery username reponame])"
    using assms(1,3,4) f by (auto simp: fetchRepoMeta_lookup [OF l] Let_def message_def)
  moreover have "field (Obj fs) k =
      (if k = ''starCount'' then field (field (Obj rs) ''stargazers'') ''totalCount''
       else field (Obj rs) k)" for k
    using m by (simp add: field_def)
  ultimately show ?thesis
    by (simp add: r Let_def)
qed

theorem fetchRepoMeta_owner_witness:
  "(\<exists>fs. fetchRepoMeta example_net ''testuser'' ''tlsscanner'' [] =
            (Inr (Obj fs), [MetaQuery ''testuser'' ''tlsscanner''])
         \<and> field (Obj fs) ''starCount'' = Num 0 \<and> field (Obj fs) ''name'' = Str ''tlsscanner'')
   \<and> (\<exists>fs. fetchRepoMeta organization_net ''testorg'' ''tlsscanner'' [] =
            (Inr (Obj fs), [MetaQuery ''testorg'' ''tlsscanner''])
         \<and> field (Obj fs) ''starCount'' = Num 0 \<and> field (Obj fs) ''name'' = Str ''tlsscanner'')"
proof -
  have u: "\<exists>fs. fetchRepoMeta example_net ''testuser'' ''tlsscanner'' [] =
            (Inr (Obj fs), [] @ [MetaQuery ''testuser'' ''tlsscanner''])
     \<and> (\<forall>k. field (Obj fs) k =
          (let repository = field (field (meta_data example_net ''testuser'' ''tlsscanner'') ''user'') ''repository'' in
           if k = ''starCount'' then field (field repository ''stargazers'') ''totalCount''
           else field repository k))"
    by (rule fetchRepoMeta_owner [where other = "''organization''"])
       (simp_all add: example_nets service_lookups example_bodies is_owner_def usable_def
          example_repository_ok example_repository_object
          example_repository_public [unfolded field_def])
  have g: "\<exists>fs. fetchRepoMeta organization_net ''testorg'' ''tlsscanner'' [] =
            (Inr (Obj fs), [] @ [MetaQuery ''testorg'' ''tlsscanner''])
     \<and> (\<forall>k. field (Obj fs) k =
          (let repository = field (field (meta_data organization_net ''testorg'' ''tlsscanner'') ''organization'') ''repository'' in
           if k = ''starCount'' then field (field repository ''stargazers'') ''totalCount''
           else field repository k))"
    by (rule fetchRepoMeta_owner [where other = "''user''"])
       (simp_all add: example_nets service_lookups example_bodies is_owner_def usable_def
          example_repository_ok example_repository_object
          example_repository_public [unfolded field_def])
  have v: "field (field example_repository ''stargazers'') ''totalCount'' = Num 0"
    "field example_repository ''name'' = Str ''tlsscanner''"
    by (simp_all add: example_repository_def field_def)
  from u obtain fs where fs:
    "fetchRepoMeta example_net ''testuser'' ''tlsscanner'' [] =
       (Inr (Obj fs), [MetaQuery ''testuser'' ''tlsscanner''])"
    "\<forall>k. field (Obj fs) k =
       (if k = ''starCount'' then field (field example_repository ''stargazers'') ''totalCount''
        else field example_repository k)"
    by (auto simp: example_nets service_lookups owners_def owner_of_def Let_def field_def [of "Obj _"])
  from g obtain gs where gs:
    "fetchRepoMeta organization_net ''testorg'' ''tlsscanner'' [] =
       (Inr (Obj gs), [MetaQuery ''testorg'' ''tlsscanner''])"
    "\<forall>k. field (Obj gs) k =
       (if k = ''starCount'' then field (field example_repository ''stargazers'') ''totalCount''
        else field example_repository k)"
    by (auto simp: example_nets service_lookups owners_def owner_of_def Let_def field_def [of "Obj _"])
  have "field (Obj fs) ''starCount'' = Num 0 \<and> field (Obj fs) ''name'' = Str ''tlsscanner''"
    using fs(2) v by simp
  moreover have "field (Obj gs) ''starCount'' = Num 0 \<and> field (Obj gs) ''name'' = Str ''tlsscanner''"
    using gs(2) v by simp
  ultimately show ?thesis
    using fs(1) gs(1) by blast
qed

text \<open>
  C5.  For an owner lookup of the data model, \<^verbatim>\<open>fetchRepoMeta\<close> fails in these cases and
  in no other: with \<^verbatim>\<open>Not found\<close> when both namespaces are null; with
  \<^verbatim>\<open>User Repository Not found\<close>, respectively \<^verbatim>\<open>Organization Repository Not found\<close>,
  when one namespace is an owner whose repository is missing or private; with
  \<^verbatim>\<open>Unexpected behavior\<close> when both namespaces are owners.  When one namespace is an
  owner with a usable repository it returns a record.
\<close>

theorem fetchRepoMeta_failures:
  assumes "is_owner_lookup (meta_data net username reponame)"
  shows "let user = field (meta_data net username reponame) ''user'';
             organization = field (meta_data net username reponame) ''organization'';
             result = fst (fetchRepoMeta net username reponame log) in
     (user = Null \<and> organization = Null \<longrightarrow> result = Inl (Error ''Not found''))
   \<and> (user \<noteq> Null \<and> organization = Null \<and> \<not> usable user \<longrightarrow>
        result = Inl (Error ''User Repository Not found''))
   \<and> (user = Null \<and> organization \<noteq> Null \<and> \<not> usable organization \<longrightarrow>
        result = Inl (Error ''Organization Repository Not found''))
   \<and> (user \<noteq> Null \<and> organization \<noteq> Null \<longrightarrow> result = Inl (Error ''Unexpected behavior''))
   \<and> (user \<noteq> Null \<and> organization = Null \<and> usable user \<longrightarrow> (\<exists>record. result = Inr record))
   \<and> (user = Null \<and> organization \<noteq> Null \<and> usable organization \<longrightarrow>
        (\<exists>record. result = Inr record))"
proof -
  let ?user = "field (meta_data net username reponame) ''user''"
  let ?organization = "field (meta_data net username reponame) ''organization''"
  have u: "is_owner ?user" and g: "is_owner ?organization"
    using assms by (simp_all add: is_owner_lookup_def)
  have ru: "?user \<noteq> Null \<Longrightarrow> \<not> usable ?user \<Longrightarrow> repository_of ?user m = Inl (Error m)"
    and su: "?user \<noteq> Null \<Longrightarrow> usable ?user \<Longrightarrow> \<exists>record. repository_of ?user m = Inr record" for m
    using repository_of_owner [OF u, of m] by blast+
  have rg: "?organization \<noteq> Null \<Longrightarrow> \<not> usable ?organization \<Longrightarrow>
      repository_of ?organization m = Inl (Error m)"
    and sg: "?organization \<noteq> Null \<Longrightarrow> usable ?organization \<Longrightarrow>
      \<exists>record. repository_of ?organization m = Inr record" for m
    using repository_of_owner [OF g, of m] by blast+
  show ?thesis
    using ru su rg sg by (simp add: fetchRepoMeta_lookup [OF assms] Let_def)
qed

lemma private_repository_ok: "is_repository private_repository \<and> is_object private_repository
    \<and> truthy private_repository \<and> truthy (field private_repository ''isPrivate'')"
  by (simp add: is_repository_def private_repository_def field_def)

theorem fetchRepoMeta_failures_witness:
  "fst (fetchRepoMeta unknown_net ''nobody'' ''tlsscanner'' []) = Inl (Error ''Not found'')
   \<and> fst (fetchRepoMeta (service (owners (owner_of private_repository) Null) known_user (refs_of []))
            ''testuser'' ''tlsscanner'' []) = Inl (Error ''User Repository Not found'')
   \<and> fst (fetchRepoMeta (service (owners Null (owner_of Null)) no_user (refs_of []))
            ''testorg'' ''tlsscanner'' []) = Inl (Error ''Organization Repository Not found'')
   \<and> fst (fetchRepoMeta
            (service (owners (owner_of example_repository) (owner_of example_repository)) known_user
               (refs_of []))
            ''testuser'' ''tlsscanner'' []) = Inl (Error ''Unexpected behavior'')
   \<and> (\<exists>record. fst (fetchRepoMeta example_net ''testuser'' ''tlsscanner'' []) = Inr record)
   \<and> (\<exists>record. fst (fetchRepoMeta organization_net ''testorg'' ''tlsscanner'' []) = Inr record)"
proof -
  note shapes = example_nets service_lookups example_bodies is_owner_lookup_def is_owner_def
    usable_def example_repository_ok example_repository_object private_repository_ok
    example_repository_public [unfolded field_def] private_repository_ok [unfolded field_def]
  have "fst (fetchRepoMeta unknown_net ''nobody'' ''tlsscanner'' []) = Inl (Error ''Not found'')"
    using fetchRepoMeta_failures [of unknown_net "''nobody''" "''tlsscanner''" "[]"]
    by (simp add: shapes Let_def)
  moreover have "fst (fetchRepoMeta
        (service (owners (owner_of private_repository) Null) known_user (refs_of []))
        ''testuser'' ''tlsscanner'' []) = Inl (Error ''User Repository Not found'')"
    using fetchRepoMeta_failures
      [of "service (owners (owner_of private_repository) Null) known_user (refs_of [])"
          "''testuser''" "''tlsscanner''" "[]"]
    by (simp add: shapes Let_def)
  moreover have "fst (fetchRepoMeta (service (owners Null (owner_of Null)) no_user (refs_of []))
        ''testorg'' ''tlsscanner'' []) = Inl (Error ''Organization Repository Not found'')"
    using fetchRepoMeta_failures
      [of "service (owners Null (owner_of Null)) no_user (refs_of [])"
          "''testorg''" "''tlsscanner''" "[]"]
    by (simp add: shapes Let_def)
  moreover have "fst (fetchRepoMeta
        (service (owners (owner_of example_repository) (owner_of example_repository)) known_user
           (refs_of []))
        ''testuser'' ''tlsscanner'' []) = Inl (Error ''Unexpected behavior'')"
    using fetchRepoMeta_failures
      [of "service (owners (owner_of example_repository) (owner_of example_repository)) known_user
             (refs_of [])" "''testuser''" "''tlsscanner''" "[]"]
    by (simp add: shapes Let_def)
  moreover have "\<exists>record. fst (fetchRepoMeta example_net ''testuser'' ''tlsscanner'' []) = Inr record"
    using fetchRepoMeta_failures [of example_net "''testuser''" "''tlsscanner''" "[]"]
    by (simp add: shapes Let_def)
  moreover have "\<exists>record. fst (fetchRepoMeta organization_net ''testorg'' ''tlsscanner'' []) = Inr record"
    using fetchRepoMeta_failures [of organization_net "''testorg''" "''tlsscanner''" "[]"]
    by (simp add: shapes Let_def)
  ultimately show ?thesis by blast
qed

text \<open>
  C10.  The sibling namespace has to be null and not merely missing: when one
  namespace of the response is there and the other property is missing (reads as
  \<^verbatim>\<open>undefined\<close>), \<^verbatim>\<open>fetchRepoMeta\<close> fails with \<^verbatim>\<open>Unexpected behavior\<close>, whatever the
  repository of the namespace that is there.
\<close>

theorem fetchRepoMeta_sibling_undefined:
  assumes "(own, other) = (''user'', ''organization'') \<or> (own, other) = (''organization'', ''user'')"
    and "truthy (field (meta_data net username reponame) own)"
    and "field (meta_data net username reponame) other = Undefined"
  shows "fetchRepoMeta net username reponame log =
     (Inl (Error ''Unexpected behavior''), log @ [MetaQuery username reponame])"
proof -
  let ?data = "meta_data net username reponame"
  have "is_object ?data"
    using assms(1,2) by (cases ?data) (auto simp: field_def split: if_splits)
  then show ?thesis
    using assms by (auto simp: fetchRepoMeta_object Let_def)
qed

theorem fetchRepoMeta_sibling_undefined_witness:
  "fetchRepoMeta (service (Obj [(''user'', owner_of example_repository)]) known_user (refs_of []))
      ''testuser'' ''tlsscanner'' [] =
     (Inl (Error ''Unexpected behavior''), [MetaQuery ''testuser'' ''tlsscanner''])
   \<and> fetchRepoMeta (service (Obj [(''organization'', owner_of example_repository)]) no_user (refs_of []))
      ''testorg'' ''tlsscanner'' [] =
     (Inl (Error ''Unexpected behavior''), [MetaQuery ''testorg'' ''tlsscanner''])"
  using fetchRepoMeta_sibling_undefined
      [of "''user''" "''organization''"
          "service (Obj [(''user'', owner_of example_repository)]) known_user (refs_of [])"
          "''testuser''" "''tlsscanner''" "[]"]
    fetchRepoMeta_sibling_undefined
      [of "''organization''" "''user''"
          "service (Obj [(''organization'', owner_of example_repository)]) no_user (refs_of [])"
          "''testorg''" "''tlsscanner''" "[]"]
  by (simp add: service_lookups owner_of_def field_def)

text \<open>
  C6.  For responses of the data model, \<^verbatim>\<open>fetchRepoCommits\<close> fails with \<^verbatim>\<open>Not found\<close>
  when the identity lookup has a null user, with \<^verbatim>\<open>Repository or refs not found\<close>
  when the repository or its refs are missing, with \<^verbatim>\<open>No commits found\<close> when the
  refs have no nodes, and in every other case its result is that of
  \<^verbatim>\<open>totalAdditionsAndDeletionsByUser\<close> on the nodes of the refs, which is an aggregate
  when the nodes are branch histories of commit records.
\<close>

theorem fetchRepoCommits_failures:
  assumes "is_identity (id_data net username)"
    and "field (id_data net username) ''user'' \<noteq> Null \<longrightarrow>
           is_refs_lookup (commits_data net username reponame)"
  shows "fst (fetchRepoCommits net username reponame log) =
     (let user = field (id_data net username) ''user'';
          repository = field (commits_data net username reponame) ''repository'';
          refs = field repository ''refs'';
          nodes = field refs ''nodes'' in
      if user = Null then Inl (Error ''Not found'')
      else if absent repository \<or> absent refs then Inl (Error ''Repository or refs not found'')
      else if nodes = Arr [] then Inl (Error ''No commits found'')
      else totalAdditionsAndDeletionsByUser nodes username)
   \<and> (\<forall>bs. field (id_data net username) ''user'' \<noteq> Null
          \<and> field (field (field (commits_data net username reponame) ''repository'') ''refs'') ''nodes''
              = Arr bs
          \<and> bs \<noteq> [] \<and> list_all is_branch bs
        \<longrightarrow> (\<exists>aggregated. fst (fetchRepoCommits net username reponame log) = Inr aggregated))"
proof -
  have run: "fst (fetchRepoCommits net username reponame log) =
     (let user = field (id_data net username) ''user'';
          repository = field (commits_data net username reponame) ''repository'';
          refs = field repository ''refs'';
          nodes = field refs ''nodes'' in
      if user = Null then Inl (Error ''Not found'')
      else if absent repository \<or> absent refs then Inl (Error ''Repository or refs not found'')
      else if nodes = Arr [] then Inl (Error ''No commits found'')
      else totalAdditionsAndDeletionsByUser nodes username)"
    by (simp add: fetchRepoCommits_lookup [OF assms] Let_def)
  have "\<exists>aggregated. fst (fetchRepoCommits net username reponame log) = Inr aggregated"
    if u: "field (id_data net username) ''user'' \<noteq> Null"
      and n: "field (field (field (commits_data net username reponame) ''repository'') ''refs'') ''nodes''
          = Arr bs"
      and bs: "bs \<noteq> []" "list_all is_branch bs" for bs
  proof -
    have r: "\<not> absent (field (commits_data net username reponame) ''repository'')"
      using n by (cases "field (commits_data net username reponame) ''repository''")
        (simp_all add: field_def)
    have f: "\<not> absent (field (field (commits_data net username reponame) ''repository'') ''refs'')"
      using n by (cases "field (field (commits_data net username reponame) ''repository'') ''refs''")
        (simp_all add: field_def)
    show ?thesis
      using u n bs(1) r f reconciler_succeeds [OF bs(2), of username]
      by (simp add: run Let_def)
  qed
  then show ?thesis using run by blast
qed

lemma example_totals:
  "totalAdditionsAndDeletionsByUser (Arr example_branches) ''testuser'' =
     Inr (Obj [(''additionsCount'', Num 25), (''deletionsCount'', Num 8)])"
proof -
  have "total ''additions'' ''testuser'' (remdups (all_commits example_branches)) = 25"
    and "total ''deletions'' ''testuser'' (remdups (all_commits example_branches)) = 8"
    by (simp_all add: example_commits_listed example_counts)
  then show ?thesis
    by (simp add: reconciler_total [OF example_branches_ok example_limits])
qed

theorem fetchRepoCommits_failures_witness:
  "fst (fetchRepoCommits unknown_net ''nobody'' ''tlsscanner'' []) = Inl (Error ''Not found'')
   \<and> fst (fetchRepoCommits
            (service (owners Null Null) known_user (Obj [(''repository'', Null)]))
            ''testuser'' ''tlsscanner'' []) = Inl (Error ''Repository or refs not found'')
   \<and> fst (fetchRepoCommits
            (service (owners Null Null) known_user (Obj [(''repository'', Obj [(''refs'', Null)])]))
            ''testuser'' ''tlsscanner'' []) = Inl (Error ''Repository or refs not found'')
   \<and> fst (fetchRepoCommits (service (owners Null Null) known_user (refs_of []))
            ''testuser'' ''tlsscanner'' []) = Inl (Error ''No commits found'')
   \<and> fst (fetchRepoCommits example_net ''testuser'' ''tlsscanner'' []) =
        Inr (Obj [(''additionsCount'', Num 25), (''deletionsCount'', Num 8)])"
proof -
  note shapes = example_nets service_lookups example_bodies is_identity_def is_refs_lookup_def
  have nz: "example_branches \<noteq> []" by (simp add: example_branches_def)
  have "fst (fetchRepoCommits unknown_net ''nobody'' ''tlsscanner'' []) = Inl (Error ''Not found'')"
    using fetchRepoCommits_failures [of unknown_net "''nobody''" "''tlsscanner''" "[]", THEN conjunct1]
    by (simp add: shapes Let_def)
  moreover have "fst (fetchRepoCommits
        (service (owners Null Null) known_user (Obj [(''repository'', Null)]))
        ''testuser'' ''tlsscanner'' []) = Inl (Error ''Repository or refs not found'')"
    using fetchRepoCommits_failures
      [of "service (owners Null Null) known_user (Obj [(''repository'', Null)])"
          "''testuser''" "''tlsscanner''" "[]", THEN conjunct1]
    by (simp add: shapes Let_def)
  moreover have "fst (fetchRepoCommits
        (service (owners Null Null) known_user (Obj [(''repository'', Obj [(''refs'', Null)])]))
        ''testuser'' ''tlsscanner'' []) = Inl (Error ''Repository or refs not found'')"
    using fetchRepoCommits_failures
      [of "service (owners Null Null) known_user (Obj [(''repository'', Obj [(''refs'', Null)])])"
          "''testuser''" "''tlsscanner''" "[]", THEN conjunct1]
    by (simp add: shapes Let_def)
  moreover have "fst (fetchRepoCommits (service (owners Null Null) known_user (refs_of []))
        ''testuser'' ''tlsscanner'' []) = Inl (Error ''No commits found'')"
    using fetchRepoCommits_failures
      [of "service (owners Null Null) known_user (refs_of [])" "''testuser''" "''tlsscanner''" "[]",
        THEN conjunct1]
    by (simp add: shapes Let_def)
  moreover have "fst (fetchRepoCommits example_net ''testuser'' ''tlsscanner'' []) =
      Inr (Obj [(''additionsCount'', Num 25), (''deletionsCount'', Num 8)])"
    using fetchRepoCommits_failures [of example_net "''testuser''" "''tlsscanner''" "[]", THEN conjunct1] nz
    by (simp add: shapes Let_def example_totals)
  ultimately show ?thesis by blast
qed

section \<open>The assembled record\<close>

lemma totalAdditionsAndDeletionsByUser_counts:
  "totalAdditionsAndDeletionsByUser nodes username = Inr c \<Longrightarrow> \<exists>ad. c = counts ad"
  by (auto simp: totalAdditionsAndDeletionsByUser_def aggregate_def bindE_def split: sum.splits)

lemma fetchRepoCommits_delegates:
  "fetchRepoCommits net username reponame log = (Inr c, log') \<Longrightarrow>
   \<exists>nodes. totalAdditionsAndDeletionsByUser nodes username = Inr c"
  by (auto simp: fetchRepoCommits_def bindIO_def liftE_def throw_def retryer_def
      split: sum.splits prod.splits if_splits)

lemma fetchRepoCommits_counts:
  "fetchRepoCommits net username reponame log = (Inr c, log') \<Longrightarrow> \<exists>ad. c = counts ad"
  using fetchRepoCommits_delegates totalAdditionsAndDeletionsByUser_counts by blast

lemma repository_of_distinct:
  "repository_of owner m = Inr record \<Longrightarrow> \<exists>fs. record = Obj fs \<and> distinct (map fst fs)"
  by (auto simp: repository_of_def bindE_def distinct_obj_set distinct_define_all
      split: sum.splits if_splits)

lemma fetchRepoMeta_distinct:
  "fetchRepoMeta net username reponame log = (Inr record, log') \<Longrightarrow>
   \<exists>fs. record = Obj fs \<and> distinct (map fst fs)"
  by (auto simp: fetchRepoMeta_def bindIO_def liftE_def throw_def retryer_def Let_def
      split: sum.splits prod.splits if_splits dest: repository_of_distinct)

lemma merged_record_fields:
  assumes "username \<noteq> []" and "reponame \<noteq> []"
    and "fetchRepoMeta net username reponame log = (Inr repoMeta, log1)"
    and "fetchRepoCommits net username reponame log1 = (Inr repoCommits, log2)"
  shows "\<exists>fs. fetchRepo net username reponame log = (Inr (Obj fs), log2)
     \<and> (\<forall>k. field (Obj fs) k =
          (if k = ''additionsCount'' \<or> k = ''deletionsCount'' then field repoCommits k
           else field repoMeta k))"
proof -
  obtain ms where ms: "repoMeta = Obj ms" "distinct (map fst ms)"
    using fetchRepoMeta_distinct [OF assms(3)] by blast
  obtain a d where c: "repoCommits = Obj [(''additionsCount'', a), (''deletionsCount'', d)]"
    using fetchRepoCommits_counts [OF assms(4)] by (auto simp: counts_def)
  let ?cs = "[(''additionsCount'', a), (''deletionsCount'', d)]"
  let ?fs = "define_all (define_all [] ms) ?cs"
  have base: "define_all [] ms = ms"
    using ms(2) define_all_distinct [of "[]" ms] by simp
  have m: "map_of ?fs = map_of ms ++ map_of ?cs"
    by (simp only: base) (rule map_of_define_all, simp)
  have run: "fetchRepo net username reponame log = (Inr (Obj ?fs), log2)"
    using assms ms(1) c by (simp add: fetchRepo_run)
  have "field (Obj ?fs) k =
      (if k = ''additionsCount'' \<or> k = ''deletionsCount'' then field repoCommits k
       else field repoMeta k)" for k
    unfolding field_def get.simps sum.case m ms(1) c
    by (simp add: map_add_def)
  then show ?thesis using run by blast
qed

lemma example_meta:
  "fetchRepoMeta example_net ''testuser'' ''tlsscanner'' log =
     (Inr (Obj [(''name'', Str ''tlsscanner''),
                (''stargazers'', Obj [(''totalCount'', Num 0)]),
                (''description'', Str ''''),
                (''primaryLanguage'', Obj [(''color'', Str ''#''), (''id'', Str ''''), (''name'', Str '''')]),
                (''forkCount'', Num 0),
                (''starCount'', Num 0)]),
      log @ [MetaQuery ''testuser'' ''tlsscanner''])"
proof -
  have l: "is_owner_lookup (meta_data example_net ''testuser'' ''tlsscanner'')"
    by (simp add: example_nets service_lookups example_bodies is_owner_lookup_def is_owner_def
        example_repository_ok example_repository_object)
  have r: "repository_of (owner_of example_repository) m =
     Inr (Obj [(''name'', Str ''tlsscanner''),
               (''stargazers'', Obj [(''totalCount'', Num 0)]),
               (''description'', Str ''''),
               (''primaryLanguage'', Obj [(''color'', Str ''#''), (''id'', Str ''''), (''name'', Str '''')]),
               (''forkCount'', Num 0),
               (''starCount'', Num 0)])" for m
    by (simp add: repository_of_def owner_of_def example_repository_def bindE_def define_all_def)
  have n: "owner_of example_repository \<noteq> Null" by (simp add: owner_of_def)
  show ?thesis
    by (subst fetchRepoMeta_lookup [OF l])
       (simp add: Let_def example_nets service_lookups owners_def field_def [of "Obj _"] r n)
qed

lemma example_commits:
  "fetchRepoCommits example_net ''testuser'' ''tlsscanner'' log =
     (Inr (Obj [(''additionsCount'', Num 25), (''deletionsCount'', Num 8)]),
      log @ [IdQuery ''testuser'', CommitsQuery ''testuser'' ''tlsscanner'' (Str ''U_1'')])"
proof -
  have nz: "example_branches \<noteq> []" by (simp add: example_branches_def)
  have "is_identity (id_data example_net ''testuser'')"
    and "is_refs_lookup (commits_data example_net ''testuser'' ''tlsscanner'')"
    by (simp_all add: example_nets service_lookups example_bodies is_identity_def is_refs_lookup_def)
  then have "fetchRepoCommits example_net ''testuser'' ''tlsscanner'' log =
     (let user = field (id_data example_net ''testuser'') ''user'';
          repository = field (commits_data example_net ''testuser'' ''tlsscanner'') ''repository'';
          refs = field repository ''refs'';
          nodes = field refs ''nodes'' in
      if user = Null then (Inl (Error ''Not found''), log @ [IdQuery ''testuser''])
      else
        (if absent repository \<or> absent refs then Inl (Error ''Repository or refs not found'')
         else if nodes = Arr [] then Inl (Error ''No commits found'')
         else totalAdditionsAndDeletionsByUser nodes ''testuser'',
         log @ [IdQuery ''testuser'', CommitsQuery ''testuser'' ''tlsscanner'' (field user ''id'')]))"
    by (intro fetchRepoCommits_lookup) simp_all
  then show ?thesis
    using nz
    by (simp add: Let_def example_nets service_lookups example_bodies example_totals)
qed

lemma example_run:
  "fetchRepo example_net ''testuser'' ''tlsscanner'' [] =
     (Inr example_record,
      [MetaQuery ''testuser'' ''tlsscanner'', IdQuery ''testuser'',
       CommitsQuery ''testuser'' ''tlsscanner'' (Str ''U_1'')])"
  by (simp add: fetchRepo_run example_meta example_commits define_all_def example_record_def)

text \<open>
  The test of the repository gives one body to every request.  The owner lookup
  succeeds on it; the identity lookup finds a user without \<^verbatim>\<open>id\<close>, and the commit
  lookup finds no \<^verbatim>\<open>repository\<close> in the body, so that \<^verbatim>\<open>fetchRepo\<close> throws where
  the test expects a record.
\<close>

lemma mock_meta:
  "\<exists>meta. fetchRepoMeta mock_net ''diekgbbtt'' ''tlsscanner'' [] =
     (Inr meta, [MetaQuery ''diekgbbtt'' ''tlsscanner''])
     \<and> field meta ''starCount'' = Num 0"
  by (simp add: fetchRepoMeta_def bindIO_def liftE_def throw_def retryer_def payload_data_def
      mock_net_def response_def owners_def owner_of_def mock_repository_def repository_of_def
      bindE_def Let_def define_all_def field_def)

lemma mock_commits:
  "fetchRepoCommits mock_net ''diekgbbtt'' ''tlsscanner'' log =
     (Inl (Error ''Repository or refs not found''),
      log @ [IdQuery ''diekgbbtt'', CommitsQuery ''diekgbbtt'' ''tlsscanner'' Undefined])"
  by (simp add: fetchRepoCommits_def bindIO_def liftE_def throw_def retryer_def payload_data_def
      mock_net_def response_def owners_def owner_of_def bindE_def)

lemma fetchRepo_mock:
  "fetchRepo mock_net ''diekgbbtt'' ''tlsscanner'' [] =
     (Inl (Error ''Repository or refs not found''),
      [MetaQuery ''diekgbbtt'' ''tlsscanner'', IdQuery ''diekgbbtt'',
       CommitsQuery ''diekgbbtt'' ''tlsscanner'' Undefined])"
proof -
  obtain meta where "fetchRepoMeta mock_net ''diekgbbtt'' ''tlsscanner'' [] =
     (Inr meta, [MetaQuery ''diekgbbtt'' ''tlsscanner''])"
    using mock_meta by blast
  then show ?thesis
    by (simp add: fetchRepo_def bindIO_def mock_commits)
qed

text \<open>
  C3.  The end-to-end example, run: two branches with one commit each, of 10 additions
  and 5 deletions and of 15 and 3, both by the requested login, and a repository with
  no stars.  \<^verbatim>\<open>fetchRepo\<close> returns one flat object, the properties of the metadata
  result overlaid with those of the commit result (\<open>merged_record_fields\<close>), with
  \<^verbatim>\<open>starCount\<close> 0.  The sums 25 and 8 are there, under the names that
  \<^verbatim>\<open>totalAdditionsAndDeletionsByUser\<close> gives them, \<^verbatim>\<open>additionsCount\<close> and
  \<^verbatim>\<open>deletionsCount\<close>: the record has no property \<^verbatim>\<open>totalAdditions\<close> and none
  \<^verbatim>\<open>totalDeletions\<close>, the names under which the specification and the test of the
  repository expect the two sums.  (On the mock of that test the code returns no
  record at all: \<open>fetchRepo_mock\<close>.)
\<close>

theorem fetchRepo_example_record:
  "fst (fetchRepo example_net ''testuser'' ''tlsscanner'' []) = Inr example_record
   \<and> field example_record ''starCount'' = Num 0
   \<and> field example_record ''additionsCount'' = Num 25
   \<and> field example_record ''deletionsCount'' = Num 8
   \<and> field example_record ''totalAdditions'' = Undefined
   \<and> field example_record ''totalDeletions'' = Undefined"
  by (simp add: example_run) (simp add: example_record_def field_def)

section \<open>Kinds and thrown errors\<close>

lemma owner_kind_error:
  assumes "is_owner_lookup (meta_data net username reponame)"
    and "owner_kind (meta_data net username reponame) = Some k"
  shows "\<exists>e. fetchRepoMeta net username reponame log = (Inl e, log @ [MetaQuery username reponame])
     \<and> raises k e"
proof -
  let ?user = "field (meta_data net username reponame) ''user''"
  let ?organization = "field (meta_data net username reponame) ''organization''"
  have u: "is_owner ?user" and g: "is_owner ?organization"
    using assms(1) by (simp_all add: is_owner_lookup_def)
  have ru: "?user \<noteq> Null \<Longrightarrow> \<not> usable ?user \<Longrightarrow> repository_of ?user m = Inl (Error m)" for m
    using repository_of_owner [OF u, of m] by blast
  have rg: "?organization \<noteq> Null \<Longrightarrow> \<not> usable ?organization \<Longrightarrow>
      repository_of ?organization m = Inl (Error m)" for m
    using repository_of_owner [OF g, of m] by blast
  show ?thesis
    using assms(2) ru rg
    by (auto simp: fetchRepoMeta_lookup [OF assms(1)] owner_kind_def Let_def split: if_splits)
qed

lemma owner_kind_none:
  assumes "is_owner_lookup (meta_data net username reponame)"
    and "owner_kind (meta_data net username reponame) = None"
  shows "\<exists>record. fetchRepoMeta net username reponame log =
     (Inr record, log @ [MetaQuery username reponame])"
proof -
  let ?user = "field (meta_data net username reponame) ''user''"
  let ?organization = "field (meta_data net username reponame) ''organization''"
  have u: "is_owner ?user" and g: "is_owner ?organization"
    using assms(1) by (simp_all add: is_owner_lookup_def)
  have su: "?user \<noteq> Null \<Longrightarrow> usable ?user \<Longrightarrow> \<exists>record. repository_of ?user m = Inr record" for m
    using repository_of_owner [OF u, of m] by blast
  have sg: "?organization \<noteq> Null \<Longrightarrow> usable ?organization \<Longrightarrow>
      \<exists>record. repository_of ?organization m = Inr record" for m
    using repository_of_owner [OF g, of m] by blast
  show ?thesis
    using assms(2) su sg
    by (auto simp: fetchRepoMeta_lookup [OF assms(1)] owner_kind_def Let_def split: if_splits)
qed

lemma commits_kind_error:
  assumes "is_identity (id_data net username)"
    and "field (id_data net username) ''user'' \<noteq> Null \<longrightarrow>
           is_refs_lookup (commits_data net username reponame)"
    and "(if field (id_data net username) ''user'' = Null then Some (NotFound ''identity'')
          else refs_kind (commits_data net username reponame)) = Some k"
  shows "\<exists>e. fst (fetchRepoCommits net username reponame log) = Inl e \<and> raises k e"
proof -
  have "fetchRepoCommits net username reponame log =
     (let user = field (id_data net username) ''user'';
          repository = field (commits_data net username reponame) ''repository'';
          refs = field repository ''refs'';
          nodes = field refs ''nodes'' in
      if user = Null then (Inl (Error ''Not found''), log @ [IdQuery username])
      else
        (if absent repository \<or> absent refs then Inl (Error ''Repository or refs not found'')
         else if nodes = Arr [] then Inl (Error ''No commits found'')
         else totalAdditionsAndDeletionsByUser nodes username,
         log @ [IdQuery username, CommitsQuery username reponame (field user ''id'')]))"
    using assms(1,2) by (rule fetchRepoCommits_lookup)
  then show ?thesis
    using assms(3) by (auto simp: refs_kind_def Let_def split: if_splits)
qed

lemma failure_kind_error:
  assumes "failure_kind net username reponame = Some k"
  shows "\<exists>e. fst (fetchRepo net username reponame log) = Inl e
     \<and> raises k e"
proof (cases "username = [] \<or> reponame = []")
  case True
  then have k: "k = MissingParameter"
    using assms by (simp add: failure_kind_def)
  have "\<exists>ps. fst (fetchRepo net username reponame log) = Inl (MissingParamError ps urlExample)"
    using True by (cases "username = []"; cases "reponame = []") (simp_all add: fetchRepo_def throw_def)
  then show ?thesis using k by auto
next
  case False
  then have names: "username \<noteq> []" "reponame \<noteq> []" by simp_all
  have l: "is_owner_lookup (meta_data net username reponame)"
    using assms False by (simp add: failure_kind_def split: if_splits)
  show ?thesis
  proof (cases "owner_kind (meta_data net username reponame)")
    case (Some k')
    then have "k' = k" using assms False l by (simp add: failure_kind_def)
    then obtain e where "fetchRepoMeta net username reponame log = (Inl e, log @ [MetaQuery username reponame])"
      and "raises k e"
      using owner_kind_error [OF l, of k log] Some by blast
    then show ?thesis
      by (simp add: fetchRepo_run [OF names])
  next
    case None
    obtain meta where m: "fetchRepoMeta net username reponame log =
        (Inr meta, log @ [MetaQuery username reponame])"
      using owner_kind_none [OF l None] by blast
    have i: "is_identity (id_data net username)"
      using assms False l None by (simp add: failure_kind_def split: if_splits)
    have r: "field (id_data net username) ''user'' \<noteq> Null \<longrightarrow>
        is_refs_lookup (commits_data net username reponame)"
      using assms False l None i by (simp add: failure_kind_def split: if_splits)
    have ck: "(if field (id_data net username) ''user'' = Null then Some (NotFound ''identity'')
          else refs_kind (commits_data net username reponame)) = Some k"
      using assms False l None i by (simp add: failure_kind_def split: if_splits)
    obtain e where "fst (fetchRepoCommits net username reponame (log @ [MetaQuery username reponame])) = Inl e"
      and "raises k e"
      using commits_kind_error [OF i r ck] by blast
    then show ?thesis
      by (cases "fetchRepoCommits net username reponame (log @ [MetaQuery username reponame])")
         (auto simp: fetchRepo_run [OF names] m)
  qed
qed

lemma raises_same_error:
  "raises k1 e \<Longrightarrow> raises k2 e \<Longrightarrow>
   k1 = k2 \<or> (k1 = NotFound ''owner'' \<and> k2 = NotFound ''identity'')
     \<or> (k1 = NotFound ''identity'' \<and> k2 = NotFound ''owner'')"
  by (cases k1; cases k2; simp split: if_splits error.splits)

lemma raises_not_found:
  "raises (NotFound ''owner'') e \<longleftrightarrow> e = Error ''Not found''"
  "raises (NotFound ''identity'') e \<longleftrightarrow> e = Error ''Not found''"
  by simp_all

lemma example_kinds:
  "failure_kind unknown_net ''nobody'' ''tlsscanner'' = Some (NotFound ''owner'')"
  "failure_kind organization_net ''testorg'' ''tlsscanner'' = Some (NotFound ''identity'')"
  "failure_kind (service (owners (owner_of private_repository) Null) known_user (refs_of []))
     ''testuser'' ''tlsscanner'' = Some (NotFound ''user-repository'')"
  by (simp_all add: failure_kind_def example_nets service_lookups example_bodies
      is_owner_lookup_def is_owner_def owner_kind_def refs_kind_def usable_def
      is_identity_def is_refs_lookup_def example_repository_ok example_repository_object
      private_repository_ok example_repository_public [unfolded field_def]
      private_repository_ok [unfolded field_def])

text \<open>
  C9, as the code has it.  Two invocations that fail with different kinds of the
  taxonomy surface different errors, except for the kinds \<open>NotFound ''owner''\<close> and
  \<open>NotFound ''identity''\<close>: for both of them \<^verbatim>\<open>fetchRepo\<close> surfaces the same error, an
  \<^verbatim>\<open>Error\<close> with the message \<^verbatim>\<open>Not found\<close>.
\<close>

theorem failure_kinds_distinguishable:
  assumes "failure_kind net1 username1 reponame1 = Some k1"
    and "failure_kind net2 username2 reponame2 = Some k2"
  shows "({k1, k2} = {NotFound ''owner'', NotFound ''identity''} \<longrightarrow>
            fst (fetchRepo net1 username1 reponame1 log1) = Inl (Error ''Not found'')
          \<and> fst (fetchRepo net2 username2 reponame2 log2) = Inl (Error ''Not found''))
     \<and> (k1 \<noteq> k2 \<and> {k1, k2} \<noteq> {NotFound ''owner'', NotFound ''identity''} \<longrightarrow>
            fst (fetchRepo net1 username1 reponame1 log1)
          \<noteq> fst (fetchRepo net2 username2 reponame2 log2))"
proof -
  obtain e1 where e1: "fst (fetchRepo net1 username1 reponame1 log1) = Inl e1" "raises k1 e1"
    using failure_kind_error [OF assms(1)] by blast
  obtain e2 where e2: "fst (fetchRepo net2 username2 reponame2 log2) = Inl e2" "raises k2 e2"
    using failure_kind_error [OF assms(2)] by blast
  have same: "e1 = Error ''Not found'' \<and> e2 = Error ''Not found''"
    if "{k1, k2} = {NotFound ''owner'', NotFound ''identity''}"
  proof -
    have "(k1 = NotFound ''owner'' \<or> k1 = NotFound ''identity'')
        \<and> (k2 = NotFound ''owner'' \<or> k2 = NotFound ''identity'')"
      using that by (auto simp: doubleton_eq_iff)
    then show ?thesis
      using e1(2) e2(2) raises_not_found by blast
  qed
  have differ: "e1 \<noteq> e2"
    if "k1 \<noteq> k2" and "{k1, k2} \<noteq> {NotFound ''owner'', NotFound ''identity''}"
  proof
    assume "e1 = e2"
    then have "k1 = k2 \<or> (k1 = NotFound ''owner'' \<and> k2 = NotFound ''identity'')
        \<or> (k1 = NotFound ''identity'' \<and> k2 = NotFound ''owner'')"
      using raises_same_error [of k1 e1 k2] e1(2) e2(2) by simp
    then show False
      using that by (auto simp: doubleton_eq_iff)
  qed
  show ?thesis
    using same differ by (simp add: e1(1) e2(1))
qed

theorem failure_kinds_distinguishable_witness:
  "failure_kind unknown_net ''nobody'' ''tlsscanner'' = Some (NotFound ''owner'')
   \<and> failure_kind organization_net ''testorg'' ''tlsscanner'' = Some (NotFound ''identity'')
   \<and> failure_kind (service (owners (owner_of private_repository) Null) known_user (refs_of []))
        ''testuser'' ''tlsscanner'' = Some (NotFound ''user-repository'')
   \<and> fst (fetchRepo unknown_net ''nobody'' ''tlsscanner'' []) = Inl (Error ''Not found'')
   \<and> fst (fetchRepo organization_net ''testorg'' ''tlsscanner'' []) = Inl (Error ''Not found'')
   \<and> fst (fetchRepo unknown_net ''nobody'' ''tlsscanner'' [])
       \<noteq> fst (fetchRepo (service (owners (owner_of private_repository) Null) known_user (refs_of []))
              ''testuser'' ''tlsscanner'' [])"
proof -
  have "NotFound ''owner'' \<noteq> NotFound ''user-repository''"
    and "{NotFound ''owner'', NotFound ''user-repository''}
      \<noteq> {NotFound ''owner'', NotFound ''identity''}"
    by (simp_all add: doubleton_eq_iff)
  then show ?thesis
    using example_kinds
      failure_kinds_distinguishable [OF example_kinds(1) example_kinds(2), of "[]" "[]"]
      failure_kinds_distinguishable [OF example_kinds(1) example_kinds(3), of "[]" "[]"]
    by simp
qed

text \<open>
  C9, as the claim has it, fails: a login that is neither a user nor an organization
  fails with the kind \<open>NotFound ''owner''\<close>, the repository of an organization fails with
  the kind \<open>NotFound ''identity''\<close> (its login is no user), and \<^verbatim>\<open>fetchRepo\<close> surfaces
  one and the same error for the two.
\<close>

theorem not_found_counterexample:
  "failure_kind unknown_net ''nobody'' ''tlsscanner'' = Some (NotFound ''owner'')
   \<and> failure_kind organization_net ''testorg'' ''tlsscanner'' = Some (NotFound ''identity'')
   \<and> fst (fetchRepo unknown_net ''nobody'' ''tlsscanner'' [])
       = fst (fetchRepo organization_net ''testorg'' ''tlsscanner'' [])"
proof -
  obtain e1 where e1: "fst (fetchRepo unknown_net ''nobody'' ''tlsscanner'' []) = Inl e1"
    "raises (NotFound ''owner'') e1"
    using failure_kind_error [OF example_kinds(1)] by blast
  obtain e2 where e2: "fst (fetchRepo organization_net ''testorg'' ''tlsscanner'' []) = Inl e2"
    "raises (NotFound ''identity'') e2"
    using failure_kind_error [OF example_kinds(2)] by blast
  have "e1 = e2" using e1(2) e2(2) by simp
  then show ?thesis
    using example_kinds(1,2) e1(1) e2(1) by simp
qed

end
